theory Spec2Isabelle
  imports Main
begin

section \<open>Python values and strings\<close>

text \<open>
  Python strings are modelled as \<open>string\<close> (lists of 8-bit characters). The only
  string operations the program uses are the substring test \<open>a in b\<close>,
  \<open>startswith\<close>, slicing with constant bounds and \<open>lower()\<close>; \<open>lower\<close> is modelled on
  the ASCII letters and leaves every other character alone.
\<close>

fun startswith :: "string \<Rightarrow> string \<Rightarrow> bool" where
  "startswith s [] = True"
| "startswith [] (p # ps) = False"
| "startswith (c # cs) (p # ps) = (c = p \<and> startswith cs ps)"

definition endswith :: "string \<Rightarrow> string \<Rightarrow> bool" where
  "endswith s suf = startswith (rev s) (rev suf)"

text \<open>\<open>str_in a b\<close> is Python's \<open>a in b\<close> on two strings.\<close>

fun str_in :: "string \<Rightarrow> string \<Rightarrow> bool" where
  "str_in sub [] = (sub = [])"
| "str_in sub (c # cs) = (startswith (c # cs) sub \<or> str_in sub cs)"

definition lower_char :: "char \<Rightarrow> char" where
  "lower_char c =
     (case map_of (zip ''ABCDEFGHIJKLMNOPQRSTUVWXYZ'' ''abcdefghijklmnopqrstuvwxyz'') c of
        Some d \<Rightarrow> d
      | None \<Rightarrow> c)"

definition lower :: "string \<Rightarrow> string" where
  "lower s = map lower_char s"

text \<open>The slice \<open>s[5:-1]\<close>: from index 5 up to, not including, the last character.\<close>

definition slice_5_m1 :: "string \<Rightarrow> string" where
  "slice_5_m1 s = drop 5 (butlast s)"

text \<open>
  The values \<open>json.load\<close> produces, which are also the values held by the cells of a
  table and by the entries of a metadata dictionary. \<open>JNull\<close> stands for \<open>None\<close> (and
  for the missing-value marker of a table cell). A Python dictionary is a list of
  key-value pairs with distinct keys, in insertion order.
\<close>

datatype json =
    JNull
  | JBool bool
  | JNum int
  | JStr string
  | JList "json list"
  | JDict "(string \<times> json) list"

type_synonym pydict = "(string \<times> json) list"

datatype py_error =
    KeyError
  | IndexError
  | TypeError
  | AttributeError
  | StopIteration
  | ValueError
  | ReError
  | IOError

definition of_opt :: "string option \<Rightarrow> json" where
  "of_opt v = (case v of None \<Rightarrow> JNull | Some s \<Rightarrow> JStr s)"

section \<open>XML documents and ElementTree paths\<close>

text \<open>
  An \<open>xml.etree.ElementTree.Element\<close>: tag, attributes in document order, the text
  before the first child (\<open>None\<close> when there is none) and the children.
\<close>

datatype element =
  Element (etag: string) (attrib: "(string \<times> string) list") (etext: "string option")
    (children: "element list")

text \<open>\<open>elem.iter()\<close>: the element and all its descendants, in document order.\<close>

fun iter :: "element \<Rightarrow> element list" where
  "iter (Element t a x cs) = Element t a x cs # concat (map iter cs)"

definition descendants :: "element \<Rightarrow> element list" where
  "descendants e = concat (map iter (children e))"

definition get_attr :: "element \<Rightarrow> string \<Rightarrow> string option" where
  "get_attr e k = map_of (attrib e) k"

text \<open>
  The part of ElementPath the program uses. A pattern is \<open>.//\<close> followed by steps
  separated by \<open>/\<close>; a step is a tag name, \<open>{*}name\<close> (the name in any namespace or in
  none) or \<open>*[@key]\<close> (any element that has the attribute). The first step selects
  among the descendants of the context element (never the element itself), a later
  step among the children of the elements selected so far.
\<close>

datatype tagsel = Tag string | AnyNs string | Star

datatype step = Descendant tagsel | Child tagsel | HasAttr string

fun tag_matches :: "tagsel \<Rightarrow> string \<Rightarrow> bool" where
  "tag_matches Star t = True"
| "tag_matches (Tag n) t = (t = n)"
| "tag_matches (AnyNs n) t = (t = n \<or> endswith t (CHR ''}'' # n))"

fun split_on :: "char \<Rightarrow> string \<Rightarrow> string list" where
  "split_on sep [] = [[]]"
| "split_on sep (c # cs) =
     (if c = sep then [] # split_on sep cs
      else (case split_on sep cs of
              [] \<Rightarrow> [[c]]
            | w # ws \<Rightarrow> (c # w) # ws))"

definition parse_segment :: "(tagsel \<Rightarrow> step) \<Rightarrow> string \<Rightarrow> step list" where
  "parse_segment axis seg =
     (if startswith seg ''*[@'' \<and> endswith seg '']''
        then [axis Star, HasAttr (drop 3 (butlast seg))]
      else if startswith seg ''{*}'' then [axis (AnyNs (drop 3 seg))]
      else [axis (Tag seg)])"

definition parse_path :: "string \<Rightarrow> step list option" where
  "parse_path p =
     (if startswith p ''.//'' then
        (case split_on CHR ''/'' (drop 3 p) of
           [] \<Rightarrow> None
         | seg # segs \<Rightarrow>
             Some (parse_segment Descendant seg @ concat (map (parse_segment Child) segs)))
      else None)"

fun select :: "step \<Rightarrow> element list \<Rightarrow> element list" where
  "select (Descendant ts) res =
     concat (map (\<lambda>e. filter (\<lambda>d. tag_matches ts (etag d)) (descendants e)) res)"
| "select (Child ts) res =
     concat (map (\<lambda>e. filter (\<lambda>c. tag_matches ts (etag c)) (children e)) res)"
| "select (HasAttr k) res = filter (\<lambda>e. get_attr e k \<noteq> None) res"

text \<open>
  \<open>root.findall(pattern)\<close>. A pattern outside the fragment above selects nothing in
  this model; every pattern of the program is inside it.
\<close>

definition findall :: "element \<Rightarrow> string \<Rightarrow> element list" where
  "findall root p =
     (case parse_path p of
        None \<Rightarrow> []
      | Some steps \<Rightarrow> foldl (\<lambda>res s. select s res) [root] steps)"

section \<open>The field extractors (xml_processor.py)\<close>

text \<open>
  The structural loop all four extractors share: the patterns are tried in order, and
  the first one with a match decides the result from its first match. The result is
  \<open>None\<close> when no pattern matched (the loop ran out) and \<open>Some r\<close> when the loop
  returned \<open>r\<close>, which itself may be Python's \<open>None\<close>. \<open>attr_of\<close> is the attribute name
  the extractor reads for an attribute pattern.
\<close>

fun try_patterns :: "(string \<Rightarrow> string) \<Rightarrow> element \<Rightarrow> string list \<Rightarrow> string option option" where
  "try_patterns attr_of root [] = None"
| "try_patterns attr_of root (p # ps) =
     (case findall root p of
        [] \<Rightarrow> try_patterns attr_of root ps
      | e # es \<Rightarrow>
          Some (if startswith p ''.//*[@'' then get_attr e (attr_of p) else etext e))"

text \<open>The scan of \<open>elem.attrib.items()\<close> for the first attribute that qualifies.\<close>

fun first_attr :: "(string \<Rightarrow> string \<Rightarrow> bool) \<Rightarrow> (string \<times> string) list \<Rightarrow> string option" where
  "first_attr ok [] = None"
| "first_attr ok ((k, v) # kvs) = (if ok k v then Some v else first_attr ok kvs)"

definition name_has :: "string list \<Rightarrow> string \<Rightarrow> bool" where
  "name_has names s = list_ex (\<lambda>n. str_in n (lower s)) names"

definition filename_patterns :: "string list" where
  "filename_patterns =
     [''.//FileName'', ''.//AudioFileName'', ''.//SoundRecording/FileName'',
      ''.//*[@filename]'', ''.//*[@audioFileName]'',
      ''.//{*}FileName'', ''.//{*}AudioFileName'', ''.//{*}SoundRecording/{*}FileName'']"

fun filename_scan :: "element list \<Rightarrow> string option" where
  "filename_scan [] = None"
| "filename_scan (e # es) =
     (if name_has [''filename'', ''audiofilename'', ''soundrecording''] (etag e)
         \<and> (case etext e of None \<Rightarrow> False | Some t \<Rightarrow> t \<noteq> [] \<and> str_in ''.wav'' (lower t))
      then etext e
      else (case first_attr (\<lambda>k v. name_has [''filename'', ''file'', ''audio''] k
                                   \<and> v \<noteq> [] \<and> str_in ''.wav'' (lower v)) (attrib e) of
              Some v \<Rightarrow> Some v
            | None \<Rightarrow> filename_scan es))"

definition extract_audio_filename :: "element \<Rightarrow> string option" where
  "extract_audio_filename root =
     (case try_patterns slice_5_m1 root filename_patterns of
        Some r \<Rightarrow> r
      | None \<Rightarrow> filename_scan (iter root))"

definition isrc_patterns :: "string list" where
  "isrc_patterns = [''.//ISRC'', ''.//*[@isrc]'', ''.//{*}ISRC'']"

text \<open>
  The three keyword scans return at the first element whose tag qualifies, with its
  text even when that is \<open>None\<close>, or else at its first qualifying attribute.
\<close>

fun keyword_scan :: "string list \<Rightarrow> element list \<Rightarrow> string option" where
  "keyword_scan names [] = None"
| "keyword_scan names (e # es) =
     (if name_has names (etag e) then etext e
      else (case first_attr (\<lambda>k v. name_has names k) (attrib e) of
              Some v \<Rightarrow> Some v
            | None \<Rightarrow> keyword_scan names es))"

definition extract_isrc :: "element \<Rightarrow> string option" where
  "extract_isrc root =
     (case try_patterns (\<lambda>p. ''isrc'') root isrc_patterns of
        Some r \<Rightarrow> r
      | None \<Rightarrow> keyword_scan [''isrc''] (iter root))"

definition title_patterns :: "string list" where
  "title_patterns =
     [''.//Title'', ''.//TrackTitle'', ''.//SoundRecording/Title'',
      ''.//*[@title]'', ''.//*[@trackTitle]'',
      ''.//{*}Title'', ''.//{*}TrackTitle'']"

definition extract_track_title :: "element \<Rightarrow> string option" where
  "extract_track_title root =
     (case try_patterns slice_5_m1 root title_patterns of
        Some r \<Rightarrow> r
      | None \<Rightarrow> keyword_scan [''title'', ''tracktitle''] (iter root))"

definition artist_patterns :: "string list" where
  "artist_patterns =
     [''.//Artist'', ''.//ArtistName'', ''.//Performer/Name'',
      ''.//*[@artist]'', ''.//*[@artistName]'',
      ''.//{*}Artist'', ''.//{*}ArtistName'', ''.//{*}Performer/{*}Name'']"

definition extract_artist :: "element \<Rightarrow> string option" where
  "extract_artist root =
     (case try_patterns slice_5_m1 root artist_patterns of
        Some r \<Rightarrow> r
      | None \<Rightarrow> keyword_scan [''artist'', ''performer'', ''creator''] (iter root))"

text \<open>
  \<open>_process_single_xml\<close>. \<open>ET.parse\<close> is the library's: \<open>parse path\<close> is \<open>None\<close> when it
  raises (an unreadable or malformed file) and the root element otherwise. Every
  exception is caught and turned into the result \<open>None\<close>; \<open>not audio_filename\<close> holds
  for \<open>None\<close> and for the empty string.
\<close>

definition process_single_xml :: "(string \<Rightarrow> element option) \<Rightarrow> string \<Rightarrow> pydict option" where
  "process_single_xml parse xml_path =
     (case parse xml_path of
        None \<Rightarrow> None
      | Some root \<Rightarrow>
          (let audio_filename = extract_audio_filename root;
               isrc = extract_isrc root;
               track_title = extract_track_title root;
               artist = extract_artist root
           in if audio_filename = None \<or> audio_filename = Some [] then None
              else Some [(''xml_path'', JStr xml_path),
                         (''audio_filename'', of_opt audio_filename),
                         (''isrc'', of_opt isrc),
                         (''track_title'', of_opt track_title),
                         (''artist'', of_opt artist)]))"

section \<open>Paths (pathlib)\<close>

text \<open>
  \<open>Path(s).name\<close> on a POSIX path: the last component that is neither empty nor
  \<open>.\<close>, and the empty string when there is none. \<open>Path(s).suffix\<close> is the part of the
  name from its last dot, unless that dot is the first or the last character.
\<close>

definition path_name :: "string \<Rightarrow> string" where
  "path_name s =
     (case filter (\<lambda>p. p \<noteq> [] \<and> p \<noteq> ''.'') (split_on CHR ''/'' s) of
        [] \<Rightarrow> []
      | p # ps \<Rightarrow> last (p # ps))"

definition path_suffix :: "string \<Rightarrow> string" where
  "path_suffix s =
     (let name = path_name s;
          ext = rev (takeWhile (\<lambda>c. c \<noteq> CHR ''.'') (rev name))
      in if CHR ''.'' \<in> set name \<and> ext \<noteq> [] \<and> length ext + 1 < length name
         then CHR ''.'' # ext else [])"

section \<open>Manifests (manifest_handler.py)\<close>

text \<open>
  A pandas table: the column labels, for each column whether its dtype is \<open>object\<close>,
  the row labels and the rows. \<open>read_csv\<close> and \<open>read_excel\<close> label the rows
  \<open>0, 1, ...\<close> and give every row one cell per column, which \<open>wf_frame\<close> records.
\<close>

record dataframe =
  df_columns :: "string list"
  df_object :: "bool list"
  df_index :: "nat list"
  df_rows :: "json list list"

definition wf_frame :: "dataframe \<Rightarrow> bool" where
  "wf_frame df =
     (distinct (df_columns df)
      \<and> length (df_object df) = length (df_columns df)
      \<and> df_index df = [0 ..< length (df_rows df)]
      \<and> list_all (\<lambda>r. length r = length (df_columns df)) (df_rows df))"

datatype manifest = Frame dataframe | Json json

text \<open>A record locator: a row label or list position, or a key of a mapping.\<close>

datatype locator = Pos nat | Key string

record handler =
  manifest_path :: string
  manifest_data :: manifest
  file_index :: "string \<rightharpoonup> locator"

text \<open>\<open>__init__\<close>: no data (\<open>None\<close>) and an empty index.\<close>

definition init :: "string \<Rightarrow> handler" where
  "init path = \<lparr>manifest_path = path, manifest_data = Json JNull, file_index = Map.empty\<rparr>"

text \<open>
  The library calls the handler makes, as parameters: the three readers, the
  compilation of a regular expression to its search predicate (\<open>Series.str.contains\<close>
  searches with \<open>re\<close>) and the \<open>pd.DataFrame\<close> constructor used when saving.
\<close>

record library =
  read_csv :: "string \<Rightarrow> py_error + dataframe"
  read_excel :: "string \<Rightarrow> py_error + dataframe"
  json_load :: "string \<Rightarrow> py_error + json"
  re_compile :: "string \<Rightarrow> py_error + (string \<Rightarrow> bool)"
  pd_DataFrame :: "json \<Rightarrow> py_error + dataframe"

subsection \<open>Python operations on values\<close>

fun truthy :: "json \<Rightarrow> bool" where
  "truthy JNull = False"
| "truthy (JBool b) = b"
| "truthy (JNum n) = (n \<noteq> 0)"
| "truthy (JStr s) = (s \<noteq> [])"
| "truthy (JList xs) = (xs \<noteq> [])"
| "truthy (JDict kvs) = (kvs \<noteq> [])"

text \<open>\<open>k in v\<close> for a string \<open>k\<close>.\<close>

fun py_contains :: "string \<Rightarrow> json \<Rightarrow> py_error + bool" where
  "py_contains k (JDict kvs) = Inr (k \<in> fst ` set kvs)"
| "py_contains k (JList xs) = Inr (JStr k \<in> set xs)"
| "py_contains k (JStr s) = Inr (str_in k s)"
| "py_contains k v = Inl TypeError"

fun py_len :: "json \<Rightarrow> py_error + nat" where
  "py_len (JDict kvs) = Inr (length kvs)"
| "py_len (JList xs) = Inr (length xs)"
| "py_len (JStr s) = Inr (length s)"
| "py_len v = Inl TypeError"

text \<open>\<open>d[k] = v\<close>: an existing key keeps its place, a new one goes last.\<close>

fun dict_set :: "(string \<times> 'a) list \<Rightarrow> string \<Rightarrow> 'a \<Rightarrow> (string \<times> 'a) list" where
  "dict_set [] k v = [(k, v)]"
| "dict_set ((k', v') # kvs) k v =
     (if k' = k then (k, v) # kvs else (k', v') # dict_set kvs k v)"

text \<open>\<open>metadata.get(k)\<close>.\<close>

definition dict_get :: "pydict \<Rightarrow> string \<Rightarrow> json" where
  "dict_get d k = (case map_of d k of None \<Rightarrow> JNull | Some v \<Rightarrow> v)"

text \<open>\<open>item.get(path_key, "")\<close> followed by \<open>Path(...)\<close>, which wants a string.\<close>

definition item_path :: "json \<Rightarrow> string \<Rightarrow> py_error + string" where
  "item_path item path_key =
     (case item of
        JDict kvs \<Rightarrow>
          (case map_of kvs path_key of
             None \<Rightarrow> Inr []
           | Some (JStr s) \<Rightarrow> Inr s
           | Some _ \<Rightarrow> Inl TypeError)
      | _ \<Rightarrow> Inl AttributeError)"


subsection \<open>Tables\<close>

definition col_pos :: "string list \<Rightarrow> string \<Rightarrow> nat" where
  "col_pos cols c = length (takeWhile (\<lambda>x. x \<noteq> c) cols)"

definition cell :: "json list \<Rightarrow> nat \<Rightarrow> json" where
  "cell r i = (if i < length r then r ! i else JNull)"

definition column_cells :: "dataframe \<Rightarrow> nat \<Rightarrow> json list" where
  "column_cells df i = map (\<lambda>r. cell r i) (df_rows df)"

text \<open>\<open>df.iloc[i].to_dict()\<close>.\<close>

definition row_dict :: "dataframe \<Rightarrow> json list \<Rightarrow> json" where
  "row_dict df r = JDict (zip (df_columns df) r)"

text \<open>\<open>df[col] = None\<close> for a new column: an \<open>object\<close> column of missing values, last.\<close>

definition add_column :: "dataframe \<Rightarrow> string \<Rightarrow> dataframe" where
  "add_column df c =
     df\<lparr>df_columns := df_columns df @ [c],
        df_object := df_object df @ [True],
        df_rows := map (\<lambda>r. r @ [JNull]) (df_rows df)\<rparr>"

definition is_str :: "json \<Rightarrow> bool" where
  "is_str v = (case v of JStr s \<Rightarrow> True | _ \<Rightarrow> False)"

text \<open>
  \<open>df.loc[label, col] = v\<close> for an existing column. A label of the table has its cell
  set; a label the table does not have makes pandas append a row with that label
  and missing values elsewhere. Storing a string turns the column's dtype into
  \<open>object\<close>.
\<close>

definition loc_set :: "dataframe \<Rightarrow> nat \<Rightarrow> string \<Rightarrow> json \<Rightarrow> dataframe" where
  "loc_set df label c v =
     (let i = col_pos (df_columns df) c;
          obj = (df_object df)[i := (df_object df ! i \<or> is_str v)]
      in if label \<in> set (df_index df)
         then df\<lparr>df_object := obj,
                 df_rows := map (\<lambda>(l, r). if l = label then r[i := v] else r)
                              (zip (df_index df) (df_rows df))\<rparr>
         else df\<lparr>df_object := obj,
                 df_index := df_index df @ [label],
                 df_rows := df_rows df @ [(replicate (length (df_columns df)) JNull)[i := v]]\<rparr>)"

subsection \<open>The schema sniffer\<close>

definition priority_names :: "string list" where
  "priority_names = [''path'', ''filepath'', ''file_path'', ''location'', ''uri'', ''url'']"

text \<open>\<open>col.dropna().iloc[0]\<close>, or \<open>""\<close> when every cell of the column is missing.\<close>

definition sample_of :: "json list \<Rightarrow> json" where
  "sample_of cells = (case filter (\<lambda>c. c \<noteq> JNull) cells of [] \<Rightarrow> JStr [] | c # cs \<Rightarrow> c)"

text \<open>A string that contains a slash or a backslash.\<close>

definition slashy :: "json \<Rightarrow> bool" where
  "slashy v = (case v of JStr s \<Rightarrow> str_in ''/'' s \<or> str_in [CHR 0x5C] s | _ \<Rightarrow> False)"

fun content_column :: "dataframe \<Rightarrow> nat \<Rightarrow> string list \<Rightarrow> string option" where
  "content_column df i [] = None"
| "content_column df i (c # cs) =
     (if i < length (df_object df) \<and> df_object df ! i \<and> slashy (sample_of (column_cells df i))
      then Some c
      else content_column df (Suc i) cs)"

definition find_path_column :: "manifest \<Rightarrow> string option" where
  "find_path_column m =
     (case m of
        Frame df \<Rightarrow>
          (case find (\<lambda>n. n \<in> set (df_columns df)) priority_names of
             Some n \<Rightarrow> Some n
           | None \<Rightarrow> content_column df 0 (df_columns df))
      | Json j \<Rightarrow> None)"

fun name_key :: "json \<Rightarrow> string list \<Rightarrow> py_error + string option" where
  "name_key sample [] = Inr None"
| "name_key sample (n # ns) =
     (case py_contains n sample of
        Inl e \<Rightarrow> Inl e
      | Inr b \<Rightarrow> if b then Inr (Some n) else name_key sample ns)"

fun content_key :: "pydict \<Rightarrow> string option" where
  "content_key [] = None"
| "content_key ((k, v) # kvs) = (if slashy v then Some k else content_key kvs)"

text \<open>
  \<open>_find_path_key_in_dict\<close>, on whatever value it is handed: \<open>in\<close> raises on a number
  or a truth value, and \<open>.items()\<close> on anything but a dictionary.
\<close>

definition find_path_key_in_dict :: "json \<Rightarrow> py_error + string option" where
  "find_path_key_in_dict sample =
     (if \<not> truthy sample then Inr None
      else (case name_key sample priority_names of
              Inl e \<Rightarrow> Inl e
            | Inr (Some n) \<Rightarrow> Inr (Some n)
            | Inr None \<Rightarrow>
                (case sample of
                   JDict kvs \<Rightarrow> Inr (content_key kvs)
                 | _ \<Rightarrow> Inl AttributeError)))"


subsection \<open>Building the index and loading\<close>

fun index_rows ::
  "(string \<rightharpoonup> locator) \<Rightarrow> nat \<Rightarrow> (nat \<times> json list) list \<Rightarrow> py_error + (string \<rightharpoonup> locator)" where
  "index_rows idx ci [] = Inr idx"
| "index_rows idx ci ((l, r) # rest) =
     (case cell r ci of
        JStr fp \<Rightarrow> index_rows (idx(path_name fp \<mapsto> Pos l)) ci rest
      | _ \<Rightarrow> Inl TypeError)"

fun index_items ::
  "(string \<rightharpoonup> locator) \<Rightarrow> string \<Rightarrow> (locator \<times> json) list \<Rightarrow> py_error + (string \<rightharpoonup> locator)" where
  "index_items idx pk [] = Inr idx"
| "index_items idx pk ((loc, item) # rest) =
     (case item_path item pk of
        Inl e \<Rightarrow> Inl e
      | Inr fp \<Rightarrow> index_items (idx(path_name fp \<mapsto> loc)) pk rest)"

definition list_entries :: "json list \<Rightarrow> (locator \<times> json) list" where
  "list_entries xs = zip (map Pos [0 ..< length xs]) xs"

definition mapping_entries :: "pydict \<Rightarrow> (locator \<times> json) list" where
  "mapping_entries kvs = map (\<lambda>(k, v). (Key k, v)) kvs"

definition index_entries ::
  "handler \<Rightarrow> json \<Rightarrow> (locator \<times> json) list \<Rightarrow> py_error + handler" where
  "index_entries h sample entries =
     (case find_path_key_in_dict sample of
        Inl e \<Rightarrow> Inl e
      | Inr pk \<Rightarrow>
          (case pk of
             None \<Rightarrow> Inr h
           | Some k \<Rightarrow>
               if k = [] then Inr h
               else (case index_items (file_index h) k entries of
                       Inl e \<Rightarrow> Inl e
                     | Inr idx \<Rightarrow> Inr (h\<lparr>file_index := idx\<rparr>))))"

text \<open>
  \<open>_build_file_index\<close>. The index is added to, never cleared. Taking the first key of
  an empty mapping raises \<open>StopIteration\<close>.
\<close>

definition build_file_index :: "handler \<Rightarrow> py_error + handler" where
  "build_file_index h =
     (case manifest_data h of
        Frame df \<Rightarrow>
          (case find_path_column (Frame df) of
             None \<Rightarrow> Inr h
           | Some c \<Rightarrow>
               if c = [] then Inr h
               else (case index_rows (file_index h) (col_pos (df_columns df) c)
                            (zip (df_index df) (df_rows df)) of
                       Inl e \<Rightarrow> Inl e
                     | Inr idx \<Rightarrow> Inr (h\<lparr>file_index := idx\<rparr>)))
      | Json (JList xs) \<Rightarrow>
          index_entries h (case xs of [] \<Rightarrow> JDict [] | x # rest \<Rightarrow> x) (list_entries xs)
      | Json (JDict kvs) \<Rightarrow>
          (case kvs of
             [] \<Rightarrow> Inl StopIteration
           | (sample_key, sample_item) # rest \<Rightarrow>
               (case sample_item of
                  JDict d \<Rightarrow> index_entries h (JDict d) (mapping_entries kvs)
                | _ \<Rightarrow> Inr h))
      | Json _ \<Rightarrow> Inr h)"

text \<open>
  \<open>load_manifest\<close>: the reader is chosen by the lower-cased suffix of the path; the
  log line takes \<open>len\<close> of what \<open>json.load\<close> returned; every exception is logged and
  raised again. The result is the handler after loading (the method returns its
  \<open>manifest_data\<close>).
\<close>

definition load_manifest :: "library \<Rightarrow> handler \<Rightarrow> py_error + handler" where
  "load_manifest lib h =
     (let sfx = lower (path_suffix (manifest_path h)) in
      if sfx = ''.csv'' then
        (case read_csv lib (manifest_path h) of
           Inl e \<Rightarrow> Inl e
         | Inr df \<Rightarrow> build_file_index (h\<lparr>manifest_data := Frame df\<rparr>))
      else if sfx = ''.json'' then
        (case json_load lib (manifest_path h) of
           Inl e \<Rightarrow> Inl e
         | Inr j \<Rightarrow>
             (case py_len j of
                Inl e \<Rightarrow> Inl e
              | Inr n \<Rightarrow> build_file_index (h\<lparr>manifest_data := Json j\<rparr>)))
      else if sfx = ''.xls'' \<or> sfx = ''.xlsx'' then
        (case read_excel lib (manifest_path h) of
           Inl e \<Rightarrow> Inl e
         | Inr df \<Rightarrow> build_file_index (h\<lparr>manifest_data := Frame df\<rparr>))
      else Inl ValueError)"

subsection \<open>Resolving a filename\<close>








subsection \<open>Applying metadata\<close>

text \<open>\<open>Path(metadata['audio_filename']).name\<close>.\<close>

definition meta_filename :: "pydict \<Rightarrow> py_error + string" where
  "meta_filename md =
     (case map_of md ''audio_filename'' of
        None \<Rightarrow> Inl KeyError
      | Some (JStr s) \<Rightarrow> Inr (path_name s)
      | Some _ \<Rightarrow> Inl TypeError)"

text \<open>The three assignments into a record that is a dictionary.\<close>

definition write_fields :: "pydict \<Rightarrow> pydict \<Rightarrow> pydict" where
  "write_fields d md =
     dict_set (dict_set (dict_set d ''isrc'' (dict_get md ''isrc''))
                 ''track_title'' (dict_get md ''track_title''))
       ''artist'' (dict_get md ''artist'')"

text \<open>
  One turn of each of the three loops, on the data the loop updates. A table is
  never indexed by a mapping key (the suffix of the path fixes the shape of what is
  loaded); the model answers \<open>KeyError\<close> there.
\<close>

definition update_row :: "(string \<rightharpoonup> locator) \<Rightarrow> dataframe \<Rightarrow> pydict \<Rightarrow> py_error + dataframe" where
  "update_row idx df md =
     (case meta_filename md of
        Inl e \<Rightarrow> Inl e
      | Inr filename \<Rightarrow>
          (case idx filename of
             None \<Rightarrow> Inr df
           | Some (Pos l) \<Rightarrow>
               Inr (loc_set (loc_set (loc_set df l ''isrc'' (dict_get md ''isrc''))
                               l ''track_title'' (dict_get md ''track_title''))
                      l ''artist'' (dict_get md ''artist''))
           | Some (Key k) \<Rightarrow> Inl KeyError))"

definition update_item :: "(string \<rightharpoonup> locator) \<Rightarrow> json list \<Rightarrow> pydict \<Rightarrow> py_error + json list" where
  "update_item idx xs md =
     (case meta_filename md of
        Inl e \<Rightarrow> Inl e
      | Inr filename \<Rightarrow>
          (case idx filename of
             None \<Rightarrow> Inr xs
           | Some (Pos i) \<Rightarrow>
               if i < length xs
               then (case xs ! i of
                       JDict d \<Rightarrow> Inr (xs[i := JDict (write_fields d md)])
                     | _ \<Rightarrow> Inl TypeError)
               else Inl IndexError
           | Some (Key k) \<Rightarrow> Inl TypeError))"

definition update_entry :: "(string \<rightharpoonup> locator) \<Rightarrow> pydict \<Rightarrow> pydict \<Rightarrow> py_error + pydict" where
  "update_entry idx kvs md =
     (case meta_filename md of
        Inl e \<Rightarrow> Inl e
      | Inr filename \<Rightarrow>
          (case idx filename of
             None \<Rightarrow> Inr kvs
           | Some (Pos i) \<Rightarrow> Inl KeyError
           | Some (Key k) \<Rightarrow>
               (case map_of kvs k of
                  None \<Rightarrow> Inl KeyError
                | Some (JDict d) \<Rightarrow> Inr (dict_set kvs k (JDict (write_fields d md)))
                | Some _ \<Rightarrow> Inl TypeError)))"

text \<open>\<open>for metadata in metadata_list\<close>: the loop stops at the first exception.\<close>

fun apply_all :: "('s \<Rightarrow> pydict \<Rightarrow> py_error + 's) \<Rightarrow> 's \<Rightarrow> pydict list \<Rightarrow> py_error + 's" where
  "apply_all f s [] = Inr s"
| "apply_all f s (md # mds) =
     (case f s md of
        Inl e \<Rightarrow> Inl e
      | Inr s' \<Rightarrow> apply_all f s' mds)"

definition new_columns :: "string list" where
  "new_columns = [''isrc'', ''track_title'', ''artist'']"

definition add_missing :: "dataframe \<Rightarrow> dataframe" where
  "add_missing df =
     foldl (\<lambda>d c. if c \<in> set (df_columns d) then d else add_column d c) df new_columns"

text \<open>
  \<open>update_manifest_with_metadata\<close>. A table is copied, given the three columns it
  lacks and updated; lists and mappings are updated in place. Data of any other
  kind is left alone. When an exception is raised the model reports the exception
  only.
\<close>

definition update_manifest_with_metadata :: "handler \<Rightarrow> pydict list \<Rightarrow> py_error + handler" where
  "update_manifest_with_metadata h metadata_list =
     (case manifest_data h of
        Frame df \<Rightarrow>
          (case apply_all (update_row (file_index h)) (add_missing df) metadata_list of
             Inl e \<Rightarrow> Inl e
           | Inr df' \<Rightarrow> Inr (h\<lparr>manifest_data := Frame df'\<rparr>))
      | Json (JList xs) \<Rightarrow>
          (case apply_all (update_item (file_index h)) xs metadata_list of
             Inl e \<Rightarrow> Inl e
           | Inr xs' \<Rightarrow> Inr (h\<lparr>manifest_data := Json (JList xs')\<rparr>))
      | Json (JDict kvs) \<Rightarrow>
          (case apply_all (update_entry (file_index h)) kvs metadata_list of
             Inl e \<Rightarrow> Inl e
           | Inr kvs' \<Rightarrow> Inr (h\<lparr>manifest_data := Json (JDict kvs')\<rparr>))
      | Json _ \<Rightarrow> Inr h)"

subsection \<open>Saving\<close>

text \<open>
  What \<open>save_updated_manifest\<close> hands to the writer: a table without its row labels
  (\<open>index=False\<close>), or the value given to \<open>json.dump\<close>, which refuses a table.
\<close>

datatype written = Table "string list" "json list list" | Document json

definition as_table :: "library \<Rightarrow> manifest \<Rightarrow> py_error + written" where
  "as_table lib m =
     (case m of
        Frame df \<Rightarrow> Inr (Table (df_columns df) (df_rows df))
      | Json j \<Rightarrow>
          (case pd_DataFrame lib j of
             Inl e \<Rightarrow> Inl e
           | Inr df \<Rightarrow> Inr (Table (df_columns df) (df_rows df))))"

definition save_updated_manifest :: "library \<Rightarrow> handler \<Rightarrow> string \<Rightarrow> py_error + written" where
  "save_updated_manifest lib h output_path =
     (let sfx = lower (path_suffix output_path) in
      if sfx = ''.csv'' then as_table lib (manifest_data h)
      else if sfx = ''.json'' then
        (case manifest_data h of
           Frame df \<Rightarrow> Inl TypeError
         | Json j \<Rightarrow> Inr (Document j))
      else if sfx = ''.xls'' \<or> sfx = ''.xlsx'' then as_table lib (manifest_data h)
      else Inl ValueError)"

text \<open>The fields and the number of records of what is read and of what is written.\<close>

fun item_fields :: "json \<Rightarrow> string set" where
  "item_fields (JDict d) = fst ` set d"
| "item_fields v = {}"

fun json_fields :: "json \<Rightarrow> string set" where
  "json_fields (JList xs) = \<Union> (item_fields ` set xs)"
| "json_fields (JDict kvs) = \<Union> (item_fields ` snd ` set kvs)"
| "json_fields v = {}"

fun json_count :: "json \<Rightarrow> nat" where
  "json_count (JList xs) = length xs"
| "json_count (JDict kvs) = length kvs"
| "json_count v = 0"

fun manifest_fields :: "manifest \<Rightarrow> string set" where
  "manifest_fields (Frame df) = set (df_columns df)"
| "manifest_fields (Json j) = json_fields j"

fun manifest_count :: "manifest \<Rightarrow> nat" where
  "manifest_count (Frame df) = length (df_rows df)"
| "manifest_count (Json j) = json_count j"

fun written_fields :: "written \<Rightarrow> string set" where
  "written_fields (Table cols rows) = set cols"
| "written_fields (Document j) = json_fields j"

fun written_count :: "written \<Rightarrow> nat" where
  "written_count (Table cols rows) = length rows"
| "written_count (Document j) = json_count j"

section \<open>Notions used to state the properties\<close>

subsection \<open>Extraction\<close>

text \<open>
  The selection made by the structural loop: the first pattern, in list order, that
  matches anything, with its first match.
\<close>

fun first_match :: "element \<Rightarrow> string list \<Rightarrow> (string \<times> element) option" where
  "first_match root [] = None"
| "first_match root (p # ps) =
     (case findall root p of [] \<Rightarrow> first_match root ps | e # es \<Rightarrow> Some (p, e))"

subsection \<open>Loaded handlers, records and fields\<close>

text \<open>
  \<open>loaded lib path h\<close>: \<open>h\<close> is what \<open>load_manifest\<close> makes of a fresh handler for
  \<open>path\<close>, and a table, if that is what was read, is as the pandas readers build it.
\<close>

definition loaded :: "library \<Rightarrow> string \<Rightarrow> handler \<Rightarrow> bool" where
  "loaded lib path h =
     (load_manifest lib (init path) = Inr h
      \<and> (case manifest_data h of Frame df \<Rightarrow> wf_frame df | Json j \<Rightarrow> True))"

text \<open>
  The record a locator stands for, the value of one of its fields, and the value of
  a field of a record that may not be a dictionary.
\<close>

fun record_at :: "manifest \<Rightarrow> locator \<Rightarrow> json option" where
  "record_at (Frame df) (Pos i) =
     (if i < length (df_rows df) then Some (row_dict df (df_rows df ! i)) else None)"
| "record_at (Json (JList xs)) (Pos i) = (if i < length xs then Some (xs ! i) else None)"
| "record_at (Json (JDict kvs)) (Key k) = map_of kvs k"
| "record_at m loc = None"

definition field_at :: "manifest \<Rightarrow> locator \<Rightarrow> string \<Rightarrow> json option" where
  "field_at m loc f = (case record_at m loc of Some (JDict d) \<Rightarrow> map_of d f | _ \<Rightarrow> None)"



definition is_frame :: "manifest \<Rightarrow> bool" where
  "is_frame m = (case m of Frame df \<Rightarrow> True | Json j \<Rightarrow> False)"

text \<open>
  The invariant of a loaded handler that updating keeps: every locator in the index
  stands for a record that is a dictionary, and a table is well formed.
\<close>

definition consistent :: "handler \<Rightarrow> bool" where
  "consistent h =
     ((\<forall>fn loc. file_index h fn = Some loc \<longrightarrow>
         (\<exists>d. record_at (manifest_data h) loc = Some (JDict d)))
      \<and> (\<forall>df. manifest_data h = Frame df \<longrightarrow> wf_frame df))"


definition written_at :: "handler \<Rightarrow> locator \<Rightarrow> pydict \<Rightarrow> bool" where
  "written_at h loc md =
     (field_at (manifest_data h) loc ''isrc'' = Some (dict_get md ''isrc'')
      \<and> field_at (manifest_data h) loc ''track_title'' = Some (dict_get md ''track_title'')
      \<and> field_at (manifest_data h) loc ''artist'' = Some (dict_get md ''artist''))"

subsection \<open>Rows and columns of a table\<close>

text \<open>
  The columns \<open>update_manifest_with_metadata\<close> has to create in a table, and the
  positions of the three metadata columns among the columns.
\<close>

definition missing :: "string list \<Rightarrow> string list" where
  "missing cols = filter (\<lambda>c. c \<notin> set cols) new_columns"


text \<open>
  The metadata written into one row of a table, and the effect on the dtypes: what the
  three \<open>.loc\<close> assignments of one loop turn do to the row they address.
\<close>

definition write_cells :: "string list \<Rightarrow> json list \<Rightarrow> pydict \<Rightarrow> json list" where
  "write_cells cols r md =
     r[col_pos cols ''isrc'' := dict_get md ''isrc'',
       col_pos cols ''track_title'' := dict_get md ''track_title'',
       col_pos cols ''artist'' := dict_get md ''artist'']"

definition mark_object :: "bool list \<Rightarrow> nat \<Rightarrow> json \<Rightarrow> bool list" where
  "mark_object obj i v = obj[i := (obj ! i \<or> is_str v)]"

definition write_dtypes :: "string list \<Rightarrow> bool list \<Rightarrow> pydict \<Rightarrow> bool list" where
  "write_dtypes cols obj md =
     mark_object
       (mark_object (mark_object obj (col_pos cols ''isrc'') (dict_get md ''isrc''))
          (col_pos cols ''track_title'') (dict_get md ''track_title''))
       (col_pos cols ''artist'') (dict_get md ''artist'')"

definition write_row :: "dataframe \<Rightarrow> nat \<Rightarrow> pydict \<Rightarrow> dataframe" where
  "write_row df l md =
     df\<lparr>df_object := write_dtypes (df_columns df) (df_object df) md,
        df_rows := (df_rows df)[l := write_cells (df_columns df) (df_rows df ! l) md]\<rparr>"

subsection \<open>The round trip\<close>

text \<open>
  Loading, applying no metadata and saving.
\<close>

definition round_trip :: "library \<Rightarrow> string \<Rightarrow> string \<Rightarrow> py_error + written" where
  "round_trip lib path out =
     (case load_manifest lib (init path) of
        Inl e \<Rightarrow> Inl e
      | Inr h \<Rightarrow>
          (case update_manifest_with_metadata h [] of
             Inl e \<Rightarrow> Inl e
           | Inr h' \<Rightarrow> save_updated_manifest lib h' out))"

subsection \<open>The path field of a loaded manifest\<close>







section \<open>Example inputs\<close>

text \<open>
  The document \<open><Release><Track k="v">t</Track></Release>\<close>, and the document of
  the specification's scenario.
\<close>

definition attr_track :: "string \<Rightarrow> string \<Rightarrow> string option \<Rightarrow> element" where
  "attr_track k v t = Element ''Release'' [] None [Element ''Track'' [(k, v)] t []]"

definition recording_doc :: element where
  "recording_doc = Element ''Recording'' [] None
     [Element ''FileName'' [] (Some ''track01.wav'') [],
      Element ''ISRC'' [] (Some ''US-ABC-12-00001'') []]"

text \<open>
  Two tables for the sniffer: one with a priority name among columns that all hold
  slashes, one with no priority name.
\<close>

definition slashy_frame :: dataframe where
  "slashy_frame = \<lparr>df_columns = [''note'', ''url'', ''filepath''], df_object = [True, True, True],
     df_index = [0], df_rows = [[JStr ''a/b'', JStr ''http://x/y.wav'', JStr ''/bucket/y.wav'']]\<rparr>"

definition note_frame :: dataframe where
  "note_frame = \<lparr>df_columns = [''size'', ''note''], df_object = [False, True],
     df_index = [0, 1], df_rows = [[JNum 1, JNull], [JNum 2, JStr ''a/b.wav'']]\<rparr>"

text \<open>
  A library whose readers find nothing, and the same with one reader answering. Its
  pattern matcher is the plain substring test, which is what a regular expression
  without special characters searches for.
\<close>

definition no_lib :: library where
  "no_lib = \<lparr>read_csv = (\<lambda>p. Inl IOError), read_excel = (\<lambda>p. Inl IOError),
     json_load = (\<lambda>p. Inl IOError), re_compile = (\<lambda>p. Inr (str_in p)),
     pd_DataFrame = (\<lambda>j. Inl ValueError)\<rparr>"

definition json_lib :: "json \<Rightarrow> library" where
  "json_lib j = no_lib\<lparr>json_load := (\<lambda>p. Inr j)\<rparr>"

definition csv_lib :: "dataframe \<Rightarrow> library" where
  "csv_lib df = no_lib\<lparr>read_csv := (\<lambda>p. Inr df)\<rparr>"



definition bucket_frame :: dataframe where
  "bucket_frame = \<lparr>df_columns = [''path'', ''size''], df_object = [True, False],
     df_index = [0, 1],
     df_rows = [[JStr ''/bucket/audio/track01.wav'', JNum 3],
                [JStr ''/bucket/audio/track02.wav'', JNum 4]]\<rparr>"


definition bucket_mapping :: json where
  "bucket_mapping =
     JDict [(''a'', JDict [(''path'', JStr ''/bucket/audio/track01.wav''), (''size'', JNum 3)]),
            (''b'', JDict [(''path'', JStr ''/bucket/audio/track02.wav''), (''size'', JNum 4)])]"

text \<open>
  The handlers that loading these manifests gives.
\<close>

definition bucket_index :: "locator \<Rightarrow> locator \<Rightarrow> string \<rightharpoonup> locator" where
  "bucket_index l1 l2 = [''track01.wav'' \<mapsto> l1, ''track02.wav'' \<mapsto> l2]"

definition frame_handler :: handler where
  "frame_handler = \<lparr>manifest_path = ''m.csv'', manifest_data = Frame bucket_frame,
     file_index = bucket_index (Pos 0) (Pos 1)\<rparr>"


definition mapping_handler :: handler where
  "mapping_handler = \<lparr>manifest_path = ''m.json'', manifest_data = Json bucket_mapping,
     file_index = bucket_index (Key ''a'') (Key ''b'')\<rparr>"

text \<open>
  The metadata record of the scenario, the first record and the table after it has
  been applied, and a metadata record whose filename is in no index, though a path
  contains it.
\<close>

definition track01_metadata :: pydict where
  "track01_metadata = [(''audio_filename'', JStr ''track01.wav''), (''isrc'', JStr ''US-ABC-12-00001''),
     (''track_title'', JNull), (''artist'', JNull), (''xml_path'', JStr ''a.xml'')]"



definition rack_metadata :: pydict where
  "rack_metadata = [(''audio_filename'', JStr ''rack01.wav''), (''isrc'', JStr ''XX-000-00-00000''),
     (''track_title'', JStr ''Rack''), (''artist'', JNull)]"

section \<open>Properties of the field extractors\<close>

lemmas xml_eval =
  extract_audio_filename_def extract_isrc_def extract_track_title_def extract_artist_def
  filename_patterns_def isrc_patterns_def title_patterns_def artist_patterns_def
  findall_def parse_path_def parse_segment_def endswith_def descendants_def get_attr_def
  slice_5_m1_def name_has_def lower_def lower_char_def attr_track_def recording_doc_def

text \<open>Every pattern the four extractors pass to \<open>findall\<close> is read by \<open>parse_path\<close>.\<close>

lemma patterns_supported:
  "list_all (\<lambda>p. parse_path p \<noteq> None)
     (filename_patterns @ isrc_patterns @ title_patterns @ artist_patterns)"
  by (simp add: xml_eval)

lemma try_patterns_first_match:
  "try_patterns attr_of root ps =
     map_option (\<lambda>(p, e). if startswith p ''.//*[@'' then get_attr e (attr_of p) else etext e)
       (first_match root ps)"
  by (induction ps) (auto split: list.splits)

text \<open>
  C1 (the code departs from the claim). The claim: when the structural phase matches
  an attribute pattern, the extractor returns that attribute's value, for every field
  kind. The filename, title and artist extractors take the attribute name from the
  pattern with the slice \<open>[5:-1]\<close>, which keeps the \<open>@\<close> in front of the name, so they
  look up \<open>@filename\<close>, \<open>@title\<close>, \<open>@artist\<close> and return \<open>None\<close>; only the ISRC
  extractor, which names its attribute outright, returns the value. On
  \<open><Release><Track filename="track01.wav"/></Release>\<close> the attribute pattern is the
  first to match and the result is \<open>None\<close>.
\<close>

theorem attribute_match_returns_none:
  "slice_5_m1 ''.//*[@filename]'' = ''@filename''
   \<and> first_match (attr_track ''filename'' ''track01.wav'' None) filename_patterns
       = Some (''.//*[@filename]'', Element ''Track'' [(''filename'', ''track01.wav'')] None [])
   \<and> extract_audio_filename (attr_track ''filename'' ''track01.wav'' None) = None
   \<and> extract_track_title (attr_track ''title'' ''My Song'' None) = None
   \<and> extract_artist (attr_track ''artist'' ''Somebody'' None) = None
   \<and> extract_isrc (attr_track ''isrc'' ''US-ABC-12-00001'' None) = Some ''US-ABC-12-00001''"
  by (simp add: xml_eval)

text \<open>
  C3, as stated: whenever some structural pattern for the filename matches,
  extraction returns the text of the first structural match. It fails on
  \<open><Release><Track filename="x.wav">hello</Track></Release>\<close>: the first structural
  match is the \<open>Track\<close> element, found by \<open>.//*[@filename]\<close>, its text is \<open>hello\<close>, and
  the extractor returns \<open>None\<close>.
\<close>

theorem structural_text_counterexample:
  "first_match (attr_track ''filename'' ''x.wav'' (Some ''hello'')) filename_patterns
     = Some (''.//*[@filename]'', Element ''Track'' [(''filename'', ''x.wav'')] (Some ''hello'') [])
   \<and> etext (Element ''Track'' [(''filename'', ''x.wav'')] (Some ''hello'') []) = Some ''hello''
   \<and> extract_audio_filename (attr_track ''filename'' ''x.wav'' (Some ''hello'')) = None"
  by (simp add: xml_eval)

text \<open>
  C3, amended: when the first filename pattern that matches is a tag pattern,
  extraction returns the text of that pattern's first match; whenever any structural
  pattern matches, the result is fixed by that first match alone, so two documents
  with the same first structural match give the same result whatever else they
  contain; and the keyword scan decides the result only when no structural pattern
  matches.
\<close>

theorem structural_phase_wins:
  "(first_match root filename_patterns = Some (p, e) \<and> \<not> startswith p ''.//*[@''
      \<longrightarrow> extract_audio_filename root = etext e)
   \<and> (first_match root filename_patterns = Some (p, e)
        \<and> first_match root' filename_patterns = Some (p, e)
      \<longrightarrow> extract_audio_filename root = extract_audio_filename root')
   \<and> (first_match r0 filename_patterns = None
      \<longrightarrow> extract_audio_filename r0 = filename_scan (iter r0))"
  by (simp add: extract_audio_filename_def try_patterns_first_match)

theorem structural_phase_wins_witness:
  "first_match recording_doc filename_patterns
     = Some (''.//FileName'', Element ''FileName'' [] (Some ''track01.wav'') [])
   \<and> extract_audio_filename recording_doc = Some ''track01.wav''
   \<and> first_match (Element ''Recording'' [(''audiofile'', ''other.wav'')] None
         [Element ''SoundRecording'' [] (Some ''zzz.wav'') [],
          Element ''FileName'' [] (Some ''track01.wav'') []]) filename_patterns
       = Some (''.//FileName'', Element ''FileName'' [] (Some ''track01.wav'') [])
   \<and> extract_audio_filename (Element ''Recording'' [(''audiofile'', ''other.wav'')] None
         [Element ''SoundRecording'' [] (Some ''zzz.wav'') [],
          Element ''FileName'' [] (Some ''track01.wav'') []]) = Some ''track01.wav''
   \<and> first_match (Element ''Recording'' [(''audiofile'', ''other.wav'')] None []) filename_patterns
       = None
   \<and> extract_audio_filename (Element ''Recording'' [(''audiofile'', ''other.wav'')] None [])
       = Some ''other.wav''"
  using structural_phase_wins [of recording_doc "''.//FileName''"
      "Element ''FileName'' [] (Some ''track01.wav'') []"
      "Element ''Recording'' [(''audiofile'', ''other.wav'')] None
         [Element ''SoundRecording'' [] (Some ''zzz.wav'') [],
          Element ''FileName'' [] (Some ''track01.wav'') []]"
      "Element ''Recording'' [(''audiofile'', ''other.wav'')] None []"]
  by (simp add: xml_eval)

text \<open>
  C6: \<open>_process_single_xml\<close> returns \<open>None\<close>, raising nothing, exactly when the file
  does not parse or no audio filename is extracted (\<open>None\<close>, or the empty string, which
  \<open>not audio_filename\<close> treats alike); otherwise it returns the record of the four
  extracted fields, in which a field the extractor did not find is \<open>None\<close> (\<open>JNull\<close>),
  never the empty string: the marker stands for \<open>None\<close> only, and the empty string
  only for an extracted empty string.
\<close>

theorem process_single_xml_outcome:
  "(process_single_xml parse path = None \<longleftrightarrow>
      (parse path = None \<or>
       (\<exists>root. parse path = Some root \<and>
          (extract_audio_filename root = None \<or> extract_audio_filename root = Some []))))
   \<and> (\<forall>root. parse path = Some root \<and> extract_audio_filename root \<noteq> None
          \<and> extract_audio_filename root \<noteq> Some [] \<longrightarrow>
        process_single_xml parse path =
          Some [(''xml_path'', JStr path),
                (''audio_filename'', of_opt (extract_audio_filename root)),
                (''isrc'', of_opt (extract_isrc root)),
                (''track_title'', of_opt (extract_track_title root)),
                (''artist'', of_opt (extract_artist root))])
   \<and> (\<forall>v. of_opt v = JNull \<longleftrightarrow> v = None) \<and> (\<forall>v. of_opt v = JStr [] \<longleftrightarrow> v = Some [])"
  by (auto simp: process_single_xml_def of_opt_def Let_def split: option.splits)

theorem process_single_xml_outcome_witness:
  "process_single_xml (\<lambda>p. Some recording_doc) ''a.xml'' =
     Some [(''xml_path'', JStr ''a.xml''), (''audio_filename'', JStr ''track01.wav''),
           (''isrc'', JStr ''US-ABC-12-00001''), (''track_title'', JNull), (''artist'', JNull)]
   \<and> process_single_xml (\<lambda>p. None) ''a.xml'' = None
   \<and> process_single_xml (\<lambda>p. Some (attr_track ''filename'' ''track01.wav'' None)) ''a.xml'' = None"
  using process_single_xml_outcome [of "\<lambda>p. Some recording_doc" "''a.xml''"]
  by (simp add: xml_eval of_opt_def process_single_xml_def)

section \<open>Properties of the schema sniffer and of loading\<close>

lemma find_priority:
  "ns = pre @ n # post \<Longrightarrow> P n \<Longrightarrow> \<forall>m\<in>set pre. \<not> P m \<Longrightarrow> find P ns = Some n"
  by (induction pre arbitrary: ns) auto

lemma name_key_dict:
  "ns = pre @ n # post \<Longrightarrow> n \<in> fst ` set kvs \<Longrightarrow> \<forall>m\<in>set pre. m \<notin> fst ` set kvs \<Longrightarrow>
   name_key (JDict kvs) ns = Inr (Some n)"
  by (induction pre arbitrary: ns) auto

lemma name_key_dict_none:
  "\<forall>m\<in>set ns. m \<notin> fst ` set kvs \<Longrightarrow> name_key (JDict kvs) ns = Inr None"
  by (induction ns) auto

text \<open>
  C5: when the structure has a field whose name is in the priority list, the sniffer
  returns the first such name in priority order (\<open>pre\<close> are the names of higher
  priority, none of them a field), whatever the cells or values hold; this holds for
  the columns of a table and for the keys of a sample record. The content heuristic
  gives the answer only when no field name is in the list.
\<close>

theorem name_heuristic_first:
  assumes "priority_names = pre @ n # post"
  shows "(n \<in> set (df_columns df) \<and> (\<forall>m\<in>set pre. m \<notin> set (df_columns df))
            \<longrightarrow> find_path_column (Frame df) = Some n)
       \<and> (n \<in> fst ` set kvs \<and> (\<forall>m\<in>set pre. m \<notin> fst ` set kvs)
            \<longrightarrow> find_path_key_in_dict (JDict kvs) = Inr (Some n))
       \<and> ((\<forall>m\<in>set priority_names. m \<notin> set (df_columns df'))
            \<longrightarrow> find_path_column (Frame df') = content_column df' 0 (df_columns df'))
       \<and> (kvs' \<noteq> [] \<and> (\<forall>m\<in>set priority_names. m \<notin> fst ` set kvs')
            \<longrightarrow> find_path_key_in_dict (JDict kvs') = Inr (content_key kvs'))"
proof (intro conjI impI)
  assume "n \<in> set (df_columns df) \<and> (\<forall>m\<in>set pre. m \<notin> set (df_columns df))"
  then have "find (\<lambda>x. x \<in> set (df_columns df)) priority_names = Some n"
    using assms by (intro find_priority[where pre=pre and post=post]) auto
  then show "find_path_column (Frame df) = Some n"
    by (simp add: find_path_column_def)
next
  assume a: "n \<in> fst ` set kvs \<and> (\<forall>m\<in>set pre. m \<notin> fst ` set kvs)"
  then have "kvs \<noteq> []" by auto
  moreover have "name_key (JDict kvs) priority_names = Inr (Some n)"
    using assms a by (intro name_key_dict[where pre=pre and post=post]) auto
  ultimately show "find_path_key_in_dict (JDict kvs) = Inr (Some n)"
    by (simp add: find_path_key_in_dict_def)
next
  assume "\<forall>m\<in>set priority_names. m \<notin> set (df_columns df')"
  then have "find (\<lambda>x. x \<in> set (df_columns df')) priority_names = None"
    by (simp add: find_None_iff)
  then show "find_path_column (Frame df') = content_column df' 0 (df_columns df')"
    by (simp add: find_path_column_def)
next
  assume a: "kvs' \<noteq> [] \<and> (\<forall>m\<in>set priority_names. m \<notin> fst ` set kvs')"
  then have "name_key (JDict kvs') priority_names = Inr None"
    by (intro name_key_dict_none) auto
  with a show "find_path_key_in_dict (JDict kvs') = Inr (content_key kvs')"
    by (simp add: find_path_key_in_dict_def)
qed

theorem name_heuristic_first_witness:
  "find_path_column (Frame slashy_frame) = Some ''filepath''
   \<and> find_path_key_in_dict
        (JDict [(''note'', JStr ''a/b''), (''url'', JStr ''u/v''), (''filepath'', JStr ''p/q'')])
       = Inr (Some ''filepath'')
   \<and> find_path_column (Frame note_frame) = Some ''note''
   \<and> find_path_key_in_dict (JDict [(''size'', JNum 1), (''note'', JStr ''a/b'')])
       = Inr (Some ''note'')"
  using name_heuristic_first [of "[''path'']" "''filepath''"
     "[''file_path'', ''location'', ''uri'', ''url'']" slashy_frame
     "[(''note'', JStr ''a/b''), (''url'', JStr ''u/v''), (''filepath'', JStr ''p/q'')]"
     note_frame "[(''size'', JNum 1), (''note'', JStr ''a/b'')]"]
  by (simp add: priority_names_def slashy_frame_def note_frame_def column_cells_def cell_def
        sample_of_def slashy_def)

section \<open>Dictionaries and the metadata loop\<close>

lemmas path_eval = path_suffix_def path_name_def lower_def lower_char_def init_def
lemmas lib_eval = no_lib_def json_lib_def csv_lib_def

lemma map_of_dict_set: "map_of (dict_set d k v) = (map_of d)(k \<mapsto> v)"
  by (induction d) (auto simp: fun_eq_iff)

lemma dict_set_same: "map_of d k = Some v \<Longrightarrow> dict_set d k v = d"
  by (induction d) (auto split: if_splits)

lemma keys_dict_set: "fst ` set (dict_set d k v) = insert k (fst ` set d)"
  by (simp add: dom_map_of_conv_image_fst[symmetric] map_of_dict_set)

lemma map_fst_dict_set: "map_of d k = Some v0 \<Longrightarrow> map fst (dict_set d k v) = map fst d"
  by (induction d) (auto split: if_splits)

lemma length_dict_set: "map_of d k = Some v0 \<Longrightarrow> length (dict_set d k v) = length d"
  using map_fst_dict_set[of d k v0 v] by (metis length_map)

lemma map_of_write_fields:
  "map_of (write_fields d md) =
     (map_of d)(''isrc'' \<mapsto> dict_get md ''isrc'', ''track_title'' \<mapsto> dict_get md ''track_title'',
                ''artist'' \<mapsto> dict_get md ''artist'')"
  by (simp add: write_fields_def map_of_dict_set)

lemma write_fields_idem: "write_fields (write_fields d md) md = write_fields d md"
proof -
  let ?w = "write_fields d md"
  have 1: "dict_set ?w ''isrc'' (dict_get md ''isrc'') = ?w"
    by (rule dict_set_same) (simp add: map_of_write_fields)
  have 2: "dict_set ?w ''track_title'' (dict_get md ''track_title'') = ?w"
    by (rule dict_set_same) (simp add: map_of_write_fields)
  have 3: "dict_set ?w ''artist'' (dict_get md ''artist'') = ?w"
    by (rule dict_set_same) (simp add: map_of_write_fields)
  show ?thesis
    unfolding write_fields_def[of ?w md] by (simp only: 1 2 3)
qed

lemma apply_all_append:
  "apply_all f s (xs @ ys) =
     (case apply_all f s xs of Inl e \<Rightarrow> Inl e | Inr s' \<Rightarrow> apply_all f s' ys)"
  by (induction xs arbitrary: s) (auto split: sum.splits)

lemma apply_all_skip:
  "(\<And>s. f s md = Inr s) \<Longrightarrow> apply_all f s (xs @ md # ys) = apply_all f s (xs @ ys)"
  by (induction xs arbitrary: s) (auto split: sum.splits)

lemma apply_all_invariant:
  assumes "apply_all f s mds = Inr s'" "P s"
    and "\<And>s md s'. md \<in> set mds \<Longrightarrow> P s \<Longrightarrow> f s md = Inr s' \<Longrightarrow> P s'"
  shows "P s'"
  using assms
proof (induction mds arbitrary: s)
  case Nil
  then show ?case by simp
next
  case (Cons md mds)
  from Cons.prems(1) obtain s1 where s1: "f s md = Inr s1" "apply_all f s1 mds = Inr s'"
    by (auto split: sum.splits)
  have "P s1" using Cons.prems(3)[of md s s1] Cons.prems(2) s1 by simp
  show ?case
  proof (rule Cons.IH[OF s1(2) \<open>P s1\<close>])
    fix m t t' assume "m \<in> set mds" "P t" "f t m = Inr t'"
    then show "P t'" using Cons.prems(3)[of m t t'] by simp
  qed
qed

section \<open>The index of a loaded handler\<close>

lemma index_rows_result:
  "index_rows idx ci lrs = Inr idx' \<Longrightarrow> idx' fn = Some loc \<Longrightarrow>
   idx fn = Some loc \<or> (\<exists>l \<in> fst ` set lrs. loc = Pos l)"
proof (induction lrs arbitrary: idx)
  case Nil
  then show ?case by simp
next
  case (Cons lr lrs)
  obtain l r where lr: "lr = (l, r)" by (cases lr)
  from Cons.prems(1) lr obtain fp where fp: "cell r ci = JStr fp"
    and rest: "index_rows (idx(path_name fp \<mapsto> Pos l)) ci lrs = Inr idx'"
    by (auto split: json.splits)
  from Cons.IH[OF rest Cons.prems(2)] show ?case
    using lr by (auto split: if_splits)
qed

lemma index_items_result:
  "index_items idx pk es = Inr idx' \<Longrightarrow> idx' fn = Some loc \<Longrightarrow>
   idx fn = Some loc \<or> loc \<in> fst ` set es"
proof (induction es arbitrary: idx)
  case Nil
  then show ?case by simp
next
  case (Cons e es)
  obtain l item where e: "e = (l, item)" by (cases e)
  from Cons.prems(1) e obtain fp where fp: "item_path item pk = Inr fp"
    and rest: "index_items (idx(path_name fp \<mapsto> l)) pk es = Inr idx'"
    by (auto split: sum.splits)
  from Cons.IH[OF rest Cons.prems(2)] show ?case
    using e by (auto split: if_splits)
qed

lemma index_items_paths:
  "index_items idx pk es = Inr idx' \<Longrightarrow> (loc, item) \<in> set es \<Longrightarrow> \<exists>s. item_path item pk = Inr s"
  by (induction es arbitrary: idx) (auto split: sum.splits)

lemma item_path_dict: "item_path item pk = Inr s \<Longrightarrow> \<exists>d. item = JDict d"
  by (auto simp: item_path_def split: json.splits)


lemma list_entries_alt: "list_entries xs = map (\<lambda>i. (Pos i, xs ! i)) [0 ..< length xs]"
  unfolding list_entries_def by (rule nth_equalityI) simp_all

lemma list_entries_mem:
  "(loc, item) \<in> set (list_entries xs) \<longleftrightarrow> (\<exists>i < length xs. loc = Pos i \<and> item = xs ! i)"
  by (auto simp: list_entries_alt)

lemma mapping_entries_mem:
  "(loc, item) \<in> set (mapping_entries kvs) \<longleftrightarrow> (\<exists>k. loc = Key k \<and> (k, item) \<in> set kvs)"
  by (auto simp: mapping_entries_def)

lemma index_entries_data:
  "index_entries h sample es = Inr h' \<Longrightarrow>
   manifest_data h' = manifest_data h \<and> manifest_path h' = manifest_path h"
  by (auto simp: index_entries_def split: sum.splits option.splits if_splits)

lemma build_file_index_data:
  "build_file_index h = Inr h' \<Longrightarrow>
   manifest_data h' = manifest_data h \<and> manifest_path h' = manifest_path h"
proof -
  assume b: "build_file_index h = Inr h'"
  show ?thesis
  proof (cases "manifest_data h")
    case (Frame df)
    with b show ?thesis
      by (auto simp: build_file_index_def split: sum.splits option.splits if_splits)
  next
    case (Json j)
    show ?thesis
    proof (cases j)
      case (JList xs)
      with b Json show ?thesis
        using index_entries_data[of h _ "list_entries xs" h']
        by (simp add: build_file_index_def)
    next
      case (JDict kvs)
      with b Json show ?thesis
        using index_entries_data[of h _ "mapping_entries kvs" h']
        by (auto simp: build_file_index_def split: list.splits json.splits)
    qed (use b Json in \<open>auto simp: build_file_index_def\<close>)
  qed
qed

lemma load_manifest_build:
  "load_manifest lib h0 = Inr h \<Longrightarrow>
   \<exists>m. build_file_index (h0\<lparr>manifest_data := m\<rparr>) = Inr h"
  by (auto simp: load_manifest_def Let_def split: if_splits sum.splits)

lemma build_consistent:
  assumes b: "build_file_index h1 = Inr h" and e: "file_index h1 = Map.empty"
    and w: "\<forall>df. manifest_data h1 = Frame df \<longrightarrow> wf_frame df"
  shows "consistent h"
proof -
  have data: "manifest_data h = manifest_data h1"
    using build_file_index_data[OF b] by simp
  have "\<exists>d. record_at (manifest_data h) loc = Some (JDict d)"
    if hit: "file_index h fn = Some loc" for fn loc
  proof (cases "manifest_data h1")
    case (Frame df)
    have wf: "wf_frame df" using w Frame by simp
    from b Frame hit e obtain c idx where
      idx: "index_rows Map.empty (col_pos (df_columns df) c) (zip (df_index df) (df_rows df)) = Inr idx"
      and h: "file_index h = idx"
      by (auto simp: build_file_index_def split: option.splits if_splits sum.splits)
    from index_rows_result[OF idx, of fn loc] hit h
    obtain l where l: "l \<in> fst ` set (zip (df_index df) (df_rows df))" "loc = Pos l"
      by auto
    from l(1) wf have "l < length (df_rows df)"
      by (auto simp: wf_frame_def set_zip)
    then show ?thesis using l(2) data Frame by (simp add: row_dict_def)
  next
    case (Json j)
    show ?thesis
    proof (cases j)
      case (JList xs)
      from b Json JList hit e obtain pk idx where
        idx: "index_items Map.empty pk (list_entries xs) = Inr idx" and h: "file_index h = idx"
        by (auto simp: build_file_index_def index_entries_def
            split: option.splits if_splits sum.splits)
      from index_items_result[OF idx, of fn loc] hit h
      obtain item where it: "(loc, item) \<in> set (list_entries xs)" by auto
      from index_items_paths[OF idx it] item_path_dict obtain d where "item = JDict d" by blast
      with it show ?thesis using data Json JList by (auto simp: list_entries_mem dest: sym)
    next
      case (JDict kvs)
      from b Json JDict hit e obtain pk idx where
        idx: "index_items Map.empty pk (mapping_entries kvs) = Inr idx" and h: "file_index h = idx"
        by (auto simp: build_file_index_def index_entries_def
            split: option.splits if_splits sum.splits list.splits json.splits)
      from index_items_result[OF idx, of fn loc] hit h
      obtain item where it: "(loc, item) \<in> set (mapping_entries kvs)" by auto
      then obtain k where k: "loc = Key k" "(k, item) \<in> set kvs"
        by (auto simp: mapping_entries_mem)
      then obtain v where v: "map_of kvs k = Some v"
        by (metis weak_map_of_SomeI)
      then have "(Key k, v) \<in> set (mapping_entries kvs)"
        by (auto simp: mapping_entries_mem dest: map_of_SomeD)
      from index_items_paths[OF idx this] item_path_dict obtain d where "v = JDict d" by blast
      with v k show ?thesis using data Json JDict by simp
    qed (use b Json hit e in \<open>auto simp: build_file_index_def\<close>)
  qed
  moreover have "\<forall>df. manifest_data h = Frame df \<longrightarrow> wf_frame df"
    using w data by simp
  ultimately show ?thesis by (simp add: consistent_def)
qed

lemma loaded_consistent: "loaded lib p h \<Longrightarrow> consistent h"
proof -
  assume l: "loaded lib p h"
  then obtain m where b: "build_file_index ((init p)\<lparr>manifest_data := m\<rparr>) = Inr h"
    using load_manifest_build[of lib "init p" h] by (auto simp: loaded_def)
  have "manifest_data h = m" using build_file_index_data[OF b] by simp
  with l have "\<forall>df. m = Frame df \<longrightarrow> wf_frame df" by (auto simp: loaded_def)
  then show ?thesis
    by (intro build_consistent[OF b]) (simp_all add: init_def)
qed

section \<open>Tables: columns and rows\<close>

lemma col_pos_Nil: "col_pos [] f = 0"
  by (simp add: col_pos_def)

lemma col_pos_Cons: "col_pos (c # cs) f = (if c = f then 0 else Suc (col_pos cs f))"
  by (simp add: col_pos_def)

lemma col_pos_less: "f \<in> set cols \<Longrightarrow> col_pos cols f < length cols"
  by (induction cols) (auto simp: col_pos_Cons)

lemma col_pos_notin: "f \<notin> set cols \<Longrightarrow> col_pos cols f = length cols"
  by (induction cols) (auto simp: col_pos_Cons col_pos_Nil)

lemma col_pos_nth: "f \<in> set cols \<Longrightarrow> cols ! col_pos cols f = f"
  by (induction cols) (auto simp: col_pos_Cons)

lemma col_pos_inj: "a \<in> set cols \<Longrightarrow> col_pos cols a = col_pos cols b \<Longrightarrow> a = b"
  by (induction cols) (auto simp: col_pos_Cons split: if_splits)


lemma map_of_zip_col_pos:
  "length r = length cols \<Longrightarrow>
   map_of (zip cols r) f = (if f \<in> set cols then Some (r ! col_pos cols f) else None)"
proof (induction cols arbitrary: r)
  case Nil
  then show ?case by simp
next
  case (Cons c cs)
  then obtain x xs where r: "r = x # xs" by (cases r) auto
  with Cons show ?case by (auto simp: col_pos_Cons)
qed

lemma add_missing_alt:
  "add_missing df =
     df\<lparr>df_columns := df_columns df @ missing (df_columns df),
        df_object := df_object df @ replicate (length (missing (df_columns df))) True,
        df_rows := map (\<lambda>r. r @ replicate (length (missing (df_columns df))) JNull) (df_rows df)\<rparr>"
  by (simp add: add_missing_def new_columns_def add_column_def missing_def)

lemma nth_update_general: "xs[i := x] ! j = (if i = j \<and> i < length xs then x else xs ! j)"
  by (cases "i < length xs") (auto simp: nth_list_update list_update_beyond)

lemma map_zip_upt_update:
  "l < length rows \<Longrightarrow>
   map (\<lambda>(l', r). if l' = l then g r else r) (zip [0 ..< length rows] rows) = rows[l := g (rows ! l)]"
  by (rule nth_equalityI) (auto simp: nth_list_update)

lemma loc_set_wf:
  assumes "df_index df = [0 ..< length (df_rows df)]" "l < length (df_rows df)"
  shows "loc_set df l c v =
     df\<lparr>df_object := mark_object (df_object df) (col_pos (df_columns df) c) v,
        df_rows := (df_rows df)[l := (df_rows df ! l)[col_pos (df_columns df) c := v]]\<rparr>"
  using assms map_zip_upt_update[of l "df_rows df" "\<lambda>r. r[col_pos (df_columns df) c := v]"]
  by (simp add: loc_set_def Let_def mark_object_def)

lemma update_row_hit:
  assumes "df_index df = [0 ..< length (df_rows df)]" "meta_filename md = Inr fn"
    "idx fn = Some (Pos l)" "l < length (df_rows df)"
  shows "update_row idx df md = Inr (write_row df l md)"
  using assms
  by (simp add: update_row_def loc_set_wf write_row_def write_cells_def write_dtypes_def)

lemma update_row_miss:
  "meta_filename md = Inr fn \<Longrightarrow> idx fn = None \<Longrightarrow> update_row idx df md = Inr df"
  by (simp add: update_row_def)

lemma write_cells_idem: "write_cells cols (write_cells cols r md) md = write_cells cols r md"
  unfolding write_cells_def
  by (rule nth_equalityI) (auto simp: nth_update_general)

lemma length_write_cells: "length (write_cells cols r md) = length r"
  by (simp add: write_cells_def)

lemma length_write_dtypes: "length (write_dtypes cols obj md) = length obj"
  by (simp add: write_dtypes_def mark_object_def)

lemma write_dtypes_idem: "write_dtypes cols (write_dtypes cols obj md) md = write_dtypes cols obj md"
  unfolding write_dtypes_def mark_object_def
  by (rule nth_equalityI) (auto simp: nth_update_general)

lemma write_row_idem:
  "l < length (df_rows df) \<Longrightarrow> write_row (write_row df l md) l md = write_row df l md"
  by (simp add: write_row_def write_cells_idem write_dtypes_idem)

lemma write_row_simps:
  "df_columns (write_row df l md) = df_columns df"
  "df_index (write_row df l md) = df_index df"
  "length (df_rows (write_row df l md)) = length (df_rows df)"
  by (simp_all add: write_row_def)

lemma wf_write_row:
  assumes "wf_frame df" "l < length (df_rows df)"
  shows "wf_frame (write_row df l md)"
proof -
  have "length r = length (df_columns df)"
    if "r \<in> set ((df_rows df)[l := write_cells (df_columns df) (df_rows df ! l) md])" for r
  proof -
    from that set_update_subset_insert
    have "r = write_cells (df_columns df) (df_rows df ! l) md \<or> r \<in> set (df_rows df)"
      by fastforce
    then show ?thesis
      using assms by (auto simp: wf_frame_def list_all_iff length_write_cells)
  qed
  then show ?thesis
    using assms(1) by (simp add: wf_frame_def write_row_def length_write_dtypes list_all_iff)
qed

lemma distinct_missing: "distinct (missing cols)"
  by (simp add: missing_def new_columns_def)

lemma set_missing: "set (missing cols) = set new_columns - set cols"
  by (auto simp: missing_def)

lemma add_missing_simps:
  "df_columns (add_missing df) = df_columns df @ missing (df_columns df)"
  "df_index (add_missing df) = df_index df"
  "length (df_rows (add_missing df)) = length (df_rows df)"
  by (simp_all add: add_missing_alt)

lemma wf_add_missing: "wf_frame df \<Longrightarrow> wf_frame (add_missing df)"
  unfolding wf_frame_def
  by (auto simp: add_missing_alt list_all_iff distinct_missing set_missing)

lemma add_missing_done:
  "set new_columns \<subseteq> set (df_columns df) \<Longrightarrow> add_missing df = df"
  by (simp add: add_missing_def new_columns_def)

lemma new_columns_add_missing: "set new_columns \<subseteq> set (df_columns (add_missing df))"
  by (auto simp: add_missing_simps set_missing)

section \<open>Properties of applying metadata\<close>

lemma update_row_columns: "update_row idx df md = Inr df' \<Longrightarrow> df_columns df' = df_columns df"
  by (auto simp: update_row_def loc_set_def Let_def
      split: sum.splits option.splits locator.splits if_splits)

lemma apply_all_update_row_columns:
  "apply_all (update_row idx) df mds = Inr df' \<Longrightarrow> df_columns df' = df_columns df"
  by (rule apply_all_invariant[where P="\<lambda>d. df_columns d = df_columns df"])
     (auto dest: update_row_columns)

lemma update_keeps_index:
  "update_manifest_with_metadata h mds = Inr h' \<Longrightarrow>
   file_index h' = file_index h \<and> manifest_path h' = manifest_path h"
  by (auto simp: update_manifest_with_metadata_def
      split: manifest.splits json.splits sum.splits)

lemma update_skip:
  assumes "meta_filename md = Inr fn" "file_index h fn = None"
  shows "update_manifest_with_metadata h (ms1 @ md # ms2) =
         update_manifest_with_metadata h (ms1 @ ms2)"
proof -
  have 1: "\<And>s. update_row (file_index h) s md = Inr s"
    using assms by (simp add: update_row_def)
  have 2: "\<And>s. update_item (file_index h) s md = Inr s"
    using assms by (simp add: update_item_def)
  have 3: "\<And>s. update_entry (file_index h) s md = Inr s"
    using assms by (simp add: update_entry_def)
  show ?thesis
    by (simp add: update_manifest_with_metadata_def
        apply_all_skip[where f="update_row (file_index h)" and md=md, OF 1]
        apply_all_skip[where f="update_item (file_index h)" and md=md, OF 2]
        apply_all_skip[where f="update_entry (file_index h)" and md=md, OF 3]
        split: manifest.splits json.splits)
qed

lemma update_append:
  "update_manifest_with_metadata h (ms @ ms') =
     (case update_manifest_with_metadata h ms of
        Inl e \<Rightarrow> Inl e
      | Inr h1 \<Rightarrow> update_manifest_with_metadata h1 ms')"
proof (cases "manifest_data h")
  case (Frame df)
  show ?thesis
  proof (cases "apply_all (update_row (file_index h)) (add_missing df) ms")
    case (Inl e)
    then show ?thesis using Frame
      by (simp add: update_manifest_with_metadata_def apply_all_append)
  next
    case (Inr df1)
    have "df_columns df1 = df_columns (add_missing df)"
      using apply_all_update_row_columns[OF Inr] .
    then have "add_missing df1 = df1"
      using new_columns_add_missing[of df] by (intro add_missing_done) simp
    then show ?thesis using Frame Inr
      by (simp add: update_manifest_with_metadata_def apply_all_append split: sum.splits)
  qed
next
  case (Json j)
  then show ?thesis
    by (cases j)
       (auto simp: update_manifest_with_metadata_def apply_all_append split: sum.splits)
qed

lemma write_cells_nth:
  assumes "set new_columns \<subseteq> set cols" "length r = length cols"
  shows "write_cells cols r md ! col_pos cols ''isrc'' = dict_get md ''isrc''"
    and "write_cells cols r md ! col_pos cols ''track_title'' = dict_get md ''track_title''"
    and "write_cells cols r md ! col_pos cols ''artist'' = dict_get md ''artist''"
proof -
  have in_cols: "''isrc'' \<in> set cols" "''track_title'' \<in> set cols" "''artist'' \<in> set cols"
    using assms(1) by (auto simp: new_columns_def)
  have lt: "col_pos cols ''isrc'' < length r" "col_pos cols ''track_title'' < length r"
    "col_pos cols ''artist'' < length r"
    using in_cols assms(2) by (simp_all add: col_pos_less)
  have ne: "col_pos cols ''isrc'' \<noteq> col_pos cols ''track_title''"
    "col_pos cols ''isrc'' \<noteq> col_pos cols ''artist''"
    "col_pos cols ''track_title'' \<noteq> col_pos cols ''artist''"
    using in_cols col_pos_inj[of _ cols] by fastforce+
  show "write_cells cols r md ! col_pos cols ''isrc'' = dict_get md ''isrc''"
    "write_cells cols r md ! col_pos cols ''track_title'' = dict_get md ''track_title''"
    "write_cells cols r md ! col_pos cols ''artist'' = dict_get md ''artist''"
    using lt ne by (simp_all add: write_cells_def nth_update_general)
qed


lemma consistent_cases:
  assumes "consistent h" "file_index h fn = Some loc"
  shows "(\<exists>df l. manifest_data h = Frame df \<and> wf_frame df \<and> loc = Pos l \<and> l < length (df_rows df))
       \<or> (\<exists>xs i d. manifest_data h = Json (JList xs) \<and> loc = Pos i \<and> i < length xs
              \<and> xs ! i = JDict d)
       \<or> (\<exists>kvs k d. manifest_data h = Json (JDict kvs) \<and> loc = Key k
              \<and> map_of kvs k = Some (JDict d))"
proof -
  from assms obtain d where d: "record_at (manifest_data h) loc = Some (JDict d)"
    unfolding consistent_def by blast
  have wf: "\<And>df. manifest_data h = Frame df \<Longrightarrow> wf_frame df"
    using assms(1) by (simp add: consistent_def)
  from d wf show ?thesis
    by (cases "(manifest_data h, loc)" rule: record_at.cases) (auto split: if_splits)
qed

lemma consistentI:
  assumes "consistent h" "file_index h1 = file_index h"
    and "\<And>loc d. record_at (manifest_data h) loc = Some (JDict d)
           \<Longrightarrow> \<exists>d'. record_at (manifest_data h1) loc = Some (JDict d')"
    and "\<And>df. manifest_data h1 = Frame df \<Longrightarrow> wf_frame df"
  shows "consistent h1"
  using assms unfolding consistent_def by metis

lemma single_hit_list:
  assumes m: "manifest_data h = Json (JList xs)" and c: "consistent h"
    and fn: "meta_filename md = Inr fn" and hit: "file_index h fn = Some (Pos i)"
    and i: "i < length xs" "xs ! i = JDict d"
  shows "\<exists>h1. update_manifest_with_metadata h [md] = Inr h1 \<and> consistent h1
           \<and> update_manifest_with_metadata h1 [md] = Inr h1 \<and> written_at h1 (Pos i) md"
proof -
  let ?xs1 = "xs[i := JDict (write_fields d md)]"
  let ?h1 = "h\<lparr>manifest_data := Json (JList ?xs1)\<rparr>"
  have 1: "update_manifest_with_metadata h [md] = Inr ?h1"
    using m fn hit i by (simp add: update_manifest_with_metadata_def update_item_def)
  have 2: "update_manifest_with_metadata ?h1 [md] = Inr ?h1"
    using fn hit i by (simp add: update_manifest_with_metadata_def update_item_def write_fields_idem)
  have 3: "consistent ?h1"
  proof (rule consistentI[OF c])
    fix loc d' assume "record_at (manifest_data h) loc = Some (JDict d')"
    then show "\<exists>d''. record_at (manifest_data ?h1) loc = Some (JDict d'')"
      using m by (cases loc) (auto simp: nth_update_general split: if_splits)
  qed simp_all
  have 4: "written_at ?h1 (Pos i) md"
    using i by (simp add: written_at_def field_at_def map_of_write_fields)
  from 1 2 3 4 show ?thesis by blast
qed

lemma single_hit_mapping:
  assumes m: "manifest_data h = Json (JDict kvs)" and c: "consistent h"
    and fn: "meta_filename md = Inr fn" and hit: "file_index h fn = Some (Key k)"
    and k: "map_of kvs k = Some (JDict d)"
  shows "\<exists>h1. update_manifest_with_metadata h [md] = Inr h1 \<and> consistent h1
           \<and> update_manifest_with_metadata h1 [md] = Inr h1 \<and> written_at h1 (Key k) md"
proof -
  let ?kvs1 = "dict_set kvs k (JDict (write_fields d md))"
  let ?h1 = "h\<lparr>manifest_data := Json (JDict ?kvs1)\<rparr>"
  have 1: "update_manifest_with_metadata h [md] = Inr ?h1"
    using m fn hit k by (simp add: update_manifest_with_metadata_def update_entry_def)
  have "dict_set ?kvs1 k (JDict (write_fields d md)) = ?kvs1"
    by (rule dict_set_same) (simp add: map_of_dict_set)
  then have 2: "update_manifest_with_metadata ?h1 [md] = Inr ?h1"
    using fn hit
    by (simp add: update_manifest_with_metadata_def update_entry_def write_fields_idem
        map_of_dict_set)
  have 3: "consistent ?h1"
  proof (rule consistentI[OF c])
    fix loc d' assume "record_at (manifest_data h) loc = Some (JDict d')"
    then show "\<exists>d''. record_at (manifest_data ?h1) loc = Some (JDict d'')"
      using m by (cases loc) (auto simp: map_of_dict_set)
  qed simp_all
  have 4: "written_at ?h1 (Key k) md"
    by (simp add: written_at_def field_at_def map_of_write_fields map_of_dict_set)
  from 1 2 3 4 show ?thesis by blast
qed

lemma single_hit_frame:
  assumes m: "manifest_data h = Frame df" and c: "consistent h"
    and fn: "meta_filename md = Inr fn" and hit: "file_index h fn = Some (Pos l)"
    and l: "l < length (df_rows df)" and wf: "wf_frame df"
  shows "\<exists>h1. update_manifest_with_metadata h [md] = Inr h1 \<and> consistent h1
           \<and> update_manifest_with_metadata h1 [md] = Inr h1 \<and> written_at h1 (Pos l) md"
proof -
  let ?df0 = "add_missing df"
  let ?df1 = "write_row ?df0 l md"
  let ?h1 = "h\<lparr>manifest_data := Frame ?df1\<rparr>"
  have wf0: "wf_frame ?df0" using wf by (rule wf_add_missing)
  have l0: "l < length (df_rows ?df0)" using l by (simp add: add_missing_simps)
  have wf1: "wf_frame ?df1" using wf0 l0 by (rule wf_write_row)
  have idx0: "df_index ?df0 = [0 ..< length (df_rows ?df0)]" using wf0 by (simp add: wf_frame_def)
  have idx1: "df_index ?df1 = [0 ..< length (df_rows ?df1)]" using wf1 by (simp add: wf_frame_def)
  have 1: "update_manifest_with_metadata h [md] = Inr ?h1"
    using m update_row_hit[where idx="file_index h", OF idx0 fn hit l0]
    by (simp add: update_manifest_with_metadata_def)
  have cols1: "set new_columns \<subseteq> set (df_columns ?df1)"
    using new_columns_add_missing[of df] by (simp add: write_row_simps)
  then have same: "add_missing ?df1 = ?df1" by (rule add_missing_done)
  have l1: "l < length (df_rows ?df1)" using l0 by (simp add: write_row_simps)
  have 2: "update_manifest_with_metadata ?h1 [md] = Inr ?h1"
    using update_row_hit[where idx="file_index h", OF idx1 fn hit l1] same write_row_idem[OF l0, of md] hit
    by (simp add: update_manifest_with_metadata_def)
  have 3: "consistent ?h1"
  proof (rule consistentI[OF c])
    fix loc d' assume "record_at (manifest_data h) loc = Some (JDict d')"
    then show "\<exists>d''. record_at (manifest_data ?h1) loc = Some (JDict d'')"
      using m by (cases loc) (auto simp: write_row_simps add_missing_simps row_dict_def split: if_splits)
  next
    fix df' assume "manifest_data ?h1 = Frame df'"
    then show "wf_frame df'" using wf1 by simp
  qed simp
  have len: "length (df_rows ?df0 ! l) = length (df_columns ?df0)"
    using wf0 l0 by (auto simp: wf_frame_def list_all_iff)
  have row: "df_rows ?df1 ! l = write_cells (df_columns ?df0) (df_rows ?df0 ! l) md"
    using l0 by (simp add: write_row_def)
  have c0: "set new_columns \<subseteq> set (df_columns ?df0)" by (rule new_columns_add_missing)
  then have mem: "''isrc'' \<in> set (df_columns ?df0)" "''track_title'' \<in> set (df_columns ?df0)"
    "''artist'' \<in> set (df_columns ?df0)"
    by (auto simp: new_columns_def)
  have 4: "written_at ?h1 (Pos l) md"
    using l1 row mem write_cells_nth[OF c0 len, of md]
    by (simp add: written_at_def field_at_def row_dict_def write_row_simps
        map_of_zip_col_pos length_write_cells len)
  from 1 2 3 4 show ?thesis by blast
qed

lemma single_hit:
  assumes c: "consistent h" and fn: "meta_filename md = Inr fn"
    and hit: "file_index h fn = Some loc"
  shows "\<exists>h1. update_manifest_with_metadata h [md] = Inr h1 \<and> consistent h1
           \<and> update_manifest_with_metadata h1 [md] = Inr h1 \<and> written_at h1 loc md"
  using consistent_cases[OF c hit]
    single_hit_list[OF _ c fn] single_hit_mapping[OF _ c fn] single_hit_frame[OF _ c fn] hit
  by blast

text \<open>The example manifests, loaded.\<close>

lemmas load_eval = load_manifest_def build_file_index_def index_entries_def find_path_column_def
  find_path_key_in_dict_def priority_names_def list_entries_def mapping_entries_def
  item_path_def col_pos_def cell_def path_eval lib_eval

lemma loaded_frame_handler: "loaded (csv_lib bucket_frame) ''m.csv'' frame_handler"
  by (simp add: loaded_def load_eval frame_handler_def bucket_frame_def bucket_index_def
      wf_frame_def upt_rec)


lemma loaded_mapping_handler: "loaded (json_lib bucket_mapping) ''m.json'' mapping_handler"
  by (simp add: loaded_def load_eval mapping_handler_def bucket_mapping_def bucket_index_def)

lemma track01_filename: "meta_filename track01_metadata = Inr ''track01.wav''"
  by (simp add: meta_filename_def track01_metadata_def path_name_def)

lemmas update_eval = update_manifest_with_metadata_def update_item_def update_entry_def
  update_row_def meta_filename_def write_fields_def dict_get_def path_name_def
  add_missing_def add_column_def new_columns_def loc_set_def col_pos_def is_str_def


lemma rack_filename: "meta_filename rack_metadata = Inr ''rack01.wav''"
  by (simp add: meta_filename_def rack_metadata_def path_name_def)

lemma update_nil:
  "\<exists>h'. update_manifest_with_metadata h [] = Inr h'
     \<and> (case manifest_data h of
           Frame df \<Rightarrow> h' = h\<lparr>manifest_data := Frame (add_missing df)\<rparr>
         | Json j \<Rightarrow> h' = h)"
proof (cases "manifest_data h")
  case (Frame df)
  then show ?thesis by (simp add: update_manifest_with_metadata_def)
next
  case (Json j)
  then have "h\<lparr>manifest_data := Json j\<rparr> = h" by simp
  with Json show ?thesis
    by (cases j) (simp_all add: update_manifest_with_metadata_def)
qed

lemma update_nil_consistent:
  assumes "consistent h" "update_manifest_with_metadata h [] = Inr h'"
  shows "consistent h'"
proof (cases "manifest_data h")
  case (Frame df)
  with assms(2) have h': "h' = h\<lparr>manifest_data := Frame (add_missing df)\<rparr>"
    by (simp add: update_manifest_with_metadata_def)
  have wf: "wf_frame df" using assms(1) Frame by (simp add: consistent_def)
  show ?thesis
  proof (rule consistentI[OF assms(1)])
    fix loc d assume "record_at (manifest_data h) loc = Some (JDict d)"
    then show "\<exists>d'. record_at (manifest_data h') loc = Some (JDict d')"
      using Frame h' by (cases loc) (auto simp: add_missing_simps row_dict_def split: if_splits)
  next
    fix df' assume "manifest_data h' = Frame df'"
    then show "wf_frame df'" using h' wf_add_missing[OF wf] by simp
  qed (simp add: h')
next
  case (Json j)
  with update_nil[of h] assms show ?thesis by simp
qed

lemma update_single_consistent:
  assumes c: "consistent h" and u: "update_manifest_with_metadata h [md] = Inr h'"
  shows "consistent h'"
proof (cases "meta_filename md")
  case (Inl e)
  with u show ?thesis
    using c
    by (cases "manifest_data h")
       (auto simp: update_manifest_with_metadata_def update_row_def update_item_def
          update_entry_def split: json.splits)
next
  case (Inr fn)
  show ?thesis
  proof (cases "file_index h fn")
    case None
    from update_skip[OF Inr None, of "[]" "[]"] u
    have "update_manifest_with_metadata h [] = Inr h'" by simp
    with c show ?thesis by (rule update_nil_consistent)
  next
    case (Some loc)
    from single_hit[OF c Inr Some] u show ?thesis by auto
  qed
qed

lemma update_consistent:
  "consistent h \<Longrightarrow> update_manifest_with_metadata h mds = Inr h' \<Longrightarrow> consistent h'"
proof (induction mds arbitrary: h)
  case Nil
  then show ?case by (rule update_nil_consistent)
next
  case (Cons md mds)
  from Cons.prems(2) update_append[of h "[md]" mds]
  obtain h1 where h1: "update_manifest_with_metadata h [md] = Inr h1"
    "update_manifest_with_metadata h1 mds = Inr h'"
    by (auto split: sum.splits)
  from update_single_consistent[OF Cons.prems(1) h1(1)] Cons.IH h1(2) show ?case by blast
qed



text \<open>
  C4: for a loaded manifest of any shape and a metadata record whose filename is in
  the index, applying the record a second time changes nothing: the handler after
  one application is a fixed point of applying it, and applying it twice in one call
  gives the same handler as applying it once (after any records \<open>ms\<close> applied
  before).
\<close>

theorem apply_twice_same:
  assumes "loaded lib p h" "update_manifest_with_metadata h ms = Inr h0"
    "meta_filename md = Inr fn" "file_index h fn = Some loc"
  shows "\<exists>h1. update_manifest_with_metadata h (ms @ [md]) = Inr h1
           \<and> update_manifest_with_metadata h1 [md] = Inr h1
           \<and> update_manifest_with_metadata h (ms @ [md, md]) = Inr h1"
proof -
  have c0: "consistent h0"
    using update_consistent[OF loaded_consistent[OF assms(1)] assms(2)] .
  have "file_index h0 fn = Some loc" using assms update_keeps_index[of h ms h0] by simp
  from single_hit[OF c0 assms(3) this]
  obtain h1 where h1: "update_manifest_with_metadata h0 [md] = Inr h1"
    "update_manifest_with_metadata h1 [md] = Inr h1"
    by blast
  have 1: "update_manifest_with_metadata h (ms @ [md]) = Inr h1"
    using assms(2) h1(1) by (simp add: update_append)
  have "update_manifest_with_metadata h ((ms @ [md]) @ [md]) = Inr h1"
    using 1 h1(2) by (simp only: update_append[of h "ms @ [md]"] sum.case)
  then have 2: "update_manifest_with_metadata h (ms @ [md, md]) = Inr h1" by simp
  from 1 2 h1(2) show ?thesis by blast
qed

theorem apply_twice_same_witness:
  "update_manifest_with_metadata frame_handler [track01_metadata, track01_metadata]
     = update_manifest_with_metadata frame_handler [track01_metadata]
   \<and> update_manifest_with_metadata frame_handler [track01_metadata]
     = Inr (frame_handler\<lparr>manifest_data := Frame
         \<lparr>df_columns = [''path'', ''size'', ''isrc'', ''track_title'', ''artist''],
          df_object = [True, False, True, True, True], df_index = [0, 1],
          df_rows = [[JStr ''/bucket/audio/track01.wav'', JNum 3, JStr ''US-ABC-12-00001'', JNull, JNull],
                     [JStr ''/bucket/audio/track02.wav'', JNum 4, JNull, JNull, JNull]]\<rparr>\<rparr>)"
  using apply_twice_same [OF loaded_frame_handler, where ms = "[]" and md = track01_metadata
      and fn = "''track01.wav''" and loc = "Pos 0"]
  by (simp add: track01_filename frame_handler_def bucket_frame_def bucket_index_def
      track01_metadata_def update_eval)

text \<open>
  C10: loading a JSON manifest that is an empty mapping raises: index building takes
  the first key of the mapping, and \<open>load_manifest\<close> logs the \<open>StopIteration\<close> and
  raises it again. A mapping or a list whose sample record has no discoverable path
  field loads without error, with the index left as it was (empty, for a fresh
  handler).
\<close>

theorem load_empty_mapping_raises:
  assumes "lower (path_suffix (manifest_path h)) = ''.json''"
  shows "(json_load lib (manifest_path h) = Inr (JDict []) \<longrightarrow> load_manifest lib h = Inl StopIteration)
    \<and> (json_load lib2 (manifest_path h) = Inr (JDict ((k, JDict d) # kvs))
         \<and> find_path_key_in_dict (JDict d) = Inr None
       \<longrightarrow> load_manifest lib2 h = Inr (h\<lparr>manifest_data := Json (JDict ((k, JDict d) # kvs))\<rparr>))
    \<and> (json_load lib3 (manifest_path h) = Inr (JList xs)
         \<and> find_path_key_in_dict (case xs of [] \<Rightarrow> JDict [] | x # rest \<Rightarrow> x) = Inr None
       \<longrightarrow> load_manifest lib3 h = Inr (h\<lparr>manifest_data := Json (JList xs)\<rparr>))"
  using assms
  by (simp add: load_manifest_def build_file_index_def index_entries_def)

theorem load_empty_mapping_raises_witness:
  "load_manifest (json_lib (JDict [])) (init ''m.json'') = Inl StopIteration
   \<and> load_manifest (json_lib (JDict [(''a'', JDict [(''size'', JNum 3)])])) (init ''m.json'')
       = Inr \<lparr>manifest_path = ''m.json'',
              manifest_data = Json (JDict [(''a'', JDict [(''size'', JNum 3)])]),
              file_index = Map.empty\<rparr>
   \<and> load_manifest (json_lib (JList [])) (init ''m.json'')
       = Inr \<lparr>manifest_path = ''m.json'', manifest_data = Json (JList []),
              file_index = Map.empty\<rparr>"
  using load_empty_mapping_raises [where h = "init ''m.json''" and lib = "json_lib (JDict [])"
      and ?lib2.0 = "json_lib (JDict [(''a'', JDict [(''size'', JNum 3)])])"
      and k = "''a''" and d = "[(''size'', JNum 3)]" and kvs = "[]"
      and ?lib3.0 = "json_lib (JList [])" and xs = "[]"]
  by (simp add: load_eval slashy_def)

section \<open>The round trip\<close>

lemma load_shape:
  assumes "load_manifest lib (init p) = Inr h"
  shows "(lower (path_suffix p) = ''.json'' \<and> (\<exists>j. manifest_data h = Json j))
       \<or> ((lower (path_suffix p) = ''.csv'' \<or> lower (path_suffix p) = ''.xls''
             \<or> lower (path_suffix p) = ''.xlsx'')
           \<and> (\<exists>df. manifest_data h = Frame df))"
proof -
  have p: "manifest_path (init p) = p" by (simp add: init_def)
  from assms show ?thesis
    unfolding load_manifest_def Let_def p
    by (auto split: if_splits sum.splits dest!: build_file_index_data)
qed

text \<open>
  C2, as stated: loading a manifest, applying an empty list of metadata records and
  saving reproduces the field set. It fails for a table: \<open>update_manifest_with_metadata\<close>
  creates the columns \<open>isrc\<close>, \<open>track_title\<close> and \<open>artist\<close> before it looks at the
  list, so a CSV manifest with the columns \<open>path\<close> and \<open>size\<close> is saved with five
  columns.
\<close>

theorem round_trip_adds_columns:
  "round_trip (csv_lib bucket_frame) ''m.csv'' ''out.csv''
     = Inr (Table [''path'', ''size'', ''isrc'', ''track_title'', ''artist'']
              [[JStr ''/bucket/audio/track01.wav'', JNum 3, JNull, JNull, JNull],
               [JStr ''/bucket/audio/track02.wav'', JNum 4, JNull, JNull, JNull]])
   \<and> df_columns bucket_frame = [''path'', ''size'']
   \<and> ''isrc'' \<in> written_fields (Table [''path'', ''size'', ''isrc'', ''track_title'', ''artist'']
              [[JStr ''/bucket/audio/track01.wav'', JNum 3, JNull, JNull, JNull],
               [JStr ''/bucket/audio/track02.wav'', JNum 4, JNull, JNull, JNull]])
   \<and> ''isrc'' \<notin> manifest_fields (Frame bucket_frame)"
  by (simp add: round_trip_def load_eval update_eval save_updated_manifest_def as_table_def
      bucket_frame_def)

text \<open>
  C2, amended: loading a manifest, applying an empty list of metadata records and
  saving under the same format keeps the number of records and loses no field; a
  list-shaped or mapping-shaped manifest is written back exactly as loaded, and a
  table-shaped manifest is written with its fields and, in addition, the fields
  \<open>isrc\<close>, \<open>track_title\<close> and \<open>artist\<close>.
\<close>

theorem round_trip_keeps_fields:
  assumes "load_manifest lib (init p) = Inr h"
    and "lower (path_suffix out) = lower (path_suffix p)"
  shows "\<exists>w. round_trip lib p out = Inr w
           \<and> written_count w = manifest_count (manifest_data h)
           \<and> written_fields w =
               manifest_fields (manifest_data h)
                 \<union> (if is_frame (manifest_data h) then set new_columns else {})
           \<and> (\<forall>j. manifest_data h = Json j \<longrightarrow> w = Document j)"
proof -
  from load_shape[OF assms(1)] consider
    (json) j where "lower (path_suffix p) = ''.json''" "manifest_data h = Json j"
  | (table) df where "lower (path_suffix p) = ''.csv'' \<or> lower (path_suffix p) = ''.xls''
        \<or> lower (path_suffix p) = ''.xlsx''" "manifest_data h = Frame df"
    by blast
  then show ?thesis
  proof cases
    case json
    then have s: "lower (path_suffix p) = ''.json''" and m: "manifest_data h = Json j" by auto
    from update_nil[of h] m have "update_manifest_with_metadata h [] = Inr h" by auto
    then have "round_trip lib p out = Inr (Document j)"
      using assms s m by (simp add: round_trip_def save_updated_manifest_def)
    then show ?thesis using m by (simp add: is_frame_def)
  next
    case table
    then have s: "lower (path_suffix p) = ''.csv'' \<or> lower (path_suffix p) = ''.xls''
        \<or> lower (path_suffix p) = ''.xlsx''"
      and m: "manifest_data h = Frame df" by auto
    let ?df' = "add_missing df"
    from update_nil[of h] m
    have "update_manifest_with_metadata h [] = Inr (h\<lparr>manifest_data := Frame ?df'\<rparr>)" by auto
    then have "round_trip lib p out = Inr (Table (df_columns ?df') (df_rows ?df'))"
      using assms s by (auto simp: round_trip_def save_updated_manifest_def as_table_def)
    then show ?thesis using m
      by (auto simp: is_frame_def add_missing_simps set_missing)
  qed
qed

theorem round_trip_keeps_fields_witness:
  "round_trip (json_lib bucket_mapping) ''m.json'' ''out.JSON'' = Inr (Document bucket_mapping)
   \<and> written_count (Document bucket_mapping) = 2
   \<and> written_fields (Document bucket_mapping) = {''path'', ''size''}"
  using round_trip_keeps_fields [where lib = "json_lib bucket_mapping" and p = "''m.json''"
      and h = mapping_handler and out = "''out.JSON''"] loaded_mapping_handler
  by (auto simp: loaded_def mapping_handler_def bucket_mapping_def path_eval is_frame_def)

section \<open>What applying metadata leaves alone\<close>



















section \<open>Properties of resolving a filename\<close>
















end
